theory Spec2Isabelle
  imports Complex_Main "HOL-Library.AList"
begin

section \<open>Python values, errors and paths\<close>

text \<open>
  The development embeds \<^verbatim>\<open>src/main.py\<close>: the class \<^verbatim>\<open>HEICToJPGConverter\<close> and the
  command line entry \<^verbatim>\<open>main\<close>. Everything the code reaches through a library (the file
  system behind \<^verbatim>\<open>pathlib\<close>, the Pillow image handle, \<^verbatim>\<open>piexif.dump\<close>) is either modelled
  on a small explicit world or taken as a parameter. Calls to the logger are left out: they
  return nothing the control flow reads. The one place where a logging argument can raise
  (a \<^verbatim>\<open>len(...)\<close> inside an f-string) is kept.
\<close>

text \<open>
  Exceptions of class \<^verbatim>\<open>Exception\<close>, as values. An interrupt of the process
  (\<^verbatim>\<open>KeyboardInterrupt\<close>), which \<^verbatim>\<open>except Exception\<close> lets through, is not modelled.
\<close>

datatype error =
    ValueError string
  | TypeError
  | PermissionError
  | FileNotFoundError
  | FileExistsError
  | NotADirectoryError
  | IsADirectoryError
  | UnidentifiedImageError
  | OSError
  | ZeroDivisionError
  | CodecError string

text \<open>The Python values that occur as metadata payloads.\<close>

datatype pyval =
    PNone
  | PBool bool
  | PInt int
  | PFloat int int
  | PStr string
  | PBytes string
  | PTuple "pyval list"

text \<open>Truthiness, as \<^verbatim>\<open>if x\<close> and \<^verbatim>\<open>not x\<close> read it.\<close>

fun truthy :: "pyval \<Rightarrow> bool" where
  "truthy PNone = False"
| "truthy (PBool b) = b"
| "truthy (PInt i) = (i \<noteq> 0)"
| "truthy (PFloat m e) = (m \<noteq> 0)"
| "truthy (PStr s) = (s \<noteq> [])"
| "truthy (PBytes s) = (s \<noteq> [])"
| "truthy (PTuple vs) = (vs \<noteq> [])"

text \<open>\<^verbatim>\<open>len(x)\<close>: a \<^verbatim>\<open>TypeError\<close> on a value that has no length.\<close>

fun py_len :: "pyval \<Rightarrow> error + nat" where
  "py_len (PStr s) = Inr (length s)"
| "py_len (PBytes s) = Inr (length s)"
| "py_len (PTuple vs) = Inr (length vs)"
| "py_len PNone = Inl TypeError"
| "py_len (PBool b) = Inl TypeError"
| "py_len (PInt i) = Inl TypeError"
| "py_len (PFloat m e) = Inl TypeError"

text \<open>\<^verbatim>\<open>isinstance(value, (str, bytes, int, float))\<close>; \<^verbatim>\<open>bool\<close> is a subclass of \<^verbatim>\<open>int\<close>.\<close>

fun is_scalar :: "pyval \<Rightarrow> bool" where
  "is_scalar (PStr s) = True"
| "is_scalar (PBytes s) = True"
| "is_scalar (PInt i) = True"
| "is_scalar (PBool b) = True"
| "is_scalar (PFloat m e) = True"
| "is_scalar PNone = False"
| "is_scalar (PTuple vs) = False"

text \<open>
  A path is the list of its components below the root of the modelled file system.
  \<^verbatim>\<open>name\<close>, \<^verbatim>\<open>suffix\<close>, \<^verbatim>\<open>stem\<close>, \<^verbatim>\<open>parent\<close> and \<^verbatim>\<open>relative_to\<close> follow \<^verbatim>\<open>pathlib.PurePath\<close>:
  the suffix starts at the last dot of the final component, unless that dot is the first
  or the last character.
\<close>

type_synonym path = "string list"

fun rfind :: "char \<Rightarrow> string \<Rightarrow> nat option" where
  "rfind c [] = None"
| "rfind c (x # xs) =
     (case rfind c xs of
        Some i \<Rightarrow> Some (Suc i)
      | None \<Rightarrow> if x = c then Some 0 else None)"

definition path_name :: "path \<Rightarrow> string" where
  "path_name p = (if p = [] then [] else last p)"

definition suffix_of :: "string \<Rightarrow> string" where
  "suffix_of n =
     (case rfind (CHR ''.'') n of
        None \<Rightarrow> []
      | Some i \<Rightarrow> if 0 < i \<and> i + 1 < length n then drop i n else [])"

definition stem_of :: "string \<Rightarrow> string" where
  "stem_of n =
     (case rfind (CHR ''.'') n of
        None \<Rightarrow> n
      | Some i \<Rightarrow> if 0 < i \<and> i + 1 < length n then take i n else n)"

definition suffix :: "path \<Rightarrow> string" where
  "suffix p = suffix_of (path_name p)"

definition stem :: "path \<Rightarrow> string" where
  "stem p = stem_of (path_name p)"

definition parent :: "path \<Rightarrow> path" where
  "parent p = butlast p"

fun strip_prefix :: "path \<Rightarrow> path \<Rightarrow> path option" where
  "strip_prefix [] p = Some p"
| "strip_prefix (d # ds) [] = None"
| "strip_prefix (d # ds) (x # xs) = (if d = x then strip_prefix ds xs else None)"

definition relative_to :: "path \<Rightarrow> path \<Rightarrow> error + path" where
  "relative_to p base =
     (case strip_prefix base p of
        None \<Rightarrow> Inl (ValueError ''is not in the subpath of'')
      | Some r \<Rightarrow> Inr r)"

section \<open>The image handle\<close>

text \<open>
  What \<^verbatim>\<open>preserve_metadata\<close> reads from a Pillow image: its mode, the \<^verbatim>\<open>info\<close> dictionary,
  what \<^verbatim>\<open>getexif()\<close> does (raise, or return a mapping) and what \<^verbatim>\<open>_getexif\<close> does
  (the attribute may be absent; the call may raise, return \<^verbatim>\<open>None\<close> or a mapping).
  Dictionaries are association lists in insertion order; an EXIF key is an integer tag
  or anything else, here a string.
\<close>

datatype key = KInt int | KStr string

type_synonym exif = "(key \<times> pyval) list"

type_synonym kwargs = "(string \<times> pyval) list"

record image =
  mode :: string
  info :: kwargs
  getexif :: "error + exif"
  legacy_getexif :: "(error + exif option) option"

section \<open>The file system\<close>

text \<open>
  A file holds a picture Pillow can open, or bytes it cannot identify. A directory is an
  ordinary one, one that cannot be listed (\<^verbatim>\<open>scandir\<close> on it raises \<^verbatim>\<open>PermissionError\<close>,
  while the entries in it can still be reached by name), or a symbolic link to a
  directory, which every status query and every access by name follows (a link to a
  regular file counts as that file). The other
  entries are a regular file, something that exists but is neither file nor directory
  (a socket, a device), a dangling symbolic link, for which \<^verbatim>\<open>stat\<close> raises an error that
  \<^verbatim>\<open>Path.exists\<close>, \<^verbatim>\<open>is_dir\<close> and \<^verbatim>\<open>is_file\<close> turn into \<^verbatim>\<open>False\<close>, and an entry whose
  status cannot be read: \<^verbatim>\<open>stat\<close> on it raises \<^verbatim>\<open>PermissionError\<close>, which the three
  queries do not swallow (pathlib of Python 3.11).
\<close>

datatype content = Picture image | Junk

datatype dir_kind = Listable | Unlistable | Linked

datatype node =
    File string content
  | Dir string dir_kind "node list"
  | Special string
  | Dangling string
  | Unreadable string

fun node_name :: "node \<Rightarrow> string" where
  "node_name (File n c) = n"
| "node_name (Dir n k cs) = n"
| "node_name (Special n) = n"
| "node_name (Dangling n) = n"
| "node_name (Unreadable n) = n"

fun find_child :: "string \<Rightarrow> node list \<Rightarrow> node option" where
  "find_child d [] = None"
| "find_child d (c # cs) = (if node_name c = d then Some c else find_child d cs)"

fun resolve :: "node \<Rightarrow> path \<Rightarrow> node option" where
  "resolve n [] = Some n"
| "resolve (Dir n k cs) (d # ds) =
     (case find_child d cs of None \<Rightarrow> None | Some c \<Rightarrow> resolve c ds)"
| "resolve (File n c) (d # ds) = None"
| "resolve (Special n) (d # ds) = None"
| "resolve (Dangling n) (d # ds) = None"
| "resolve (Unreadable n) (d # ds) = None"

definition path_exists :: "node \<Rightarrow> path \<Rightarrow> error + bool" where
  "path_exists tree p =
     (case resolve tree p of
        None \<Rightarrow> Inr False
      | Some (Dangling n) \<Rightarrow> Inr False
      | Some (Unreadable n) \<Rightarrow> Inl PermissionError
      | Some other \<Rightarrow> Inr True)"

definition is_dir :: "node \<Rightarrow> path \<Rightarrow> error + bool" where
  "is_dir tree p =
     (case resolve tree p of
        Some (Dir n k cs) \<Rightarrow> Inr True
      | Some (Unreadable n) \<Rightarrow> Inl PermissionError
      | other \<Rightarrow> Inr False)"

definition is_file :: "node \<Rightarrow> path \<Rightarrow> error + bool" where
  "is_file tree p =
     (case resolve tree p of
        Some (File n c) \<Rightarrow> Inr True
      | Some (Unreadable n) \<Rightarrow> Inl PermissionError
      | other \<Rightarrow> Inr False)"

text \<open>
  \<^verbatim>\<open>folder_path.rglob('*')\<close>: the entries of the directory, then, for each of its
  subdirectories in turn, what the same walk yields there. The walk does not descend
  into a link to a directory, and a directory that cannot be listed yields nothing
  (its \<^verbatim>\<open>PermissionError\<close> is swallowed by the walk); the folder the walk starts from may
  itself be a link.
\<close>

definition listing :: "path \<Rightarrow> node list \<Rightarrow> path list" where
  "listing pre cs = map (\<lambda>c. pre @ [node_name c]) cs"

fun descend :: "path \<Rightarrow> node \<Rightarrow> path list"
  and descend_all :: "path \<Rightarrow> node list \<Rightarrow> path list" where
  "descend pre (Dir n k cs) =
     (if k = Listable then listing (pre @ [n]) cs @ descend_all (pre @ [n]) cs else [])"
| "descend pre (File n c) = []"
| "descend pre (Special n) = []"
| "descend pre (Dangling n) = []"
| "descend pre (Unreadable n) = []"
| "descend_all pre [] = []"
| "descend_all pre (c # cs) = descend pre c @ descend_all pre cs"

definition rglob :: "node \<Rightarrow> path \<Rightarrow> path list" where
  "rglob tree p =
     (case resolve tree p of
        Some (Dir n k cs) \<Rightarrow> if k = Unlistable then [] else listing p cs @ descend_all p cs
      | other \<Rightarrow> [])"

text \<open>
  \<^verbatim>\<open>Path.mkdir(parents=True, exist_ok=True)\<close>: an existing directory is left alone, missing
  directories are created along the way, anything else in the way raises.
\<close>

fun replace_child :: "string \<Rightarrow> node \<Rightarrow> node list \<Rightarrow> node list" where
  "replace_child d x [] = []"
| "replace_child d x (c # cs) =
     (if node_name c = d then x # cs else c # replace_child d x cs)"

fun mkdir_p :: "path \<Rightarrow> node \<Rightarrow> error + node" where
  "mkdir_p [] (Dir n k cs) = Inr (Dir n k cs)"
| "mkdir_p [] (File n c) = Inl FileExistsError"
| "mkdir_p [] (Special n) = Inl FileExistsError"
| "mkdir_p [] (Dangling n) = Inl FileExistsError"
| "mkdir_p [] (Unreadable n) = Inl PermissionError"
| "mkdir_p (d # ds) (Dir n k cs) =
     (case find_child d cs of
        None \<Rightarrow>
          (case mkdir_p ds (Dir d Listable []) of
             Inl e \<Rightarrow> Inl e
           | Inr sub \<Rightarrow> Inr (Dir n k (cs @ [sub])))
      | Some c \<Rightarrow>
          (case mkdir_p ds c of
             Inl e \<Rightarrow> Inl e
           | Inr c' \<Rightarrow> Inr (Dir n k (replace_child d c' cs))))"
| "mkdir_p (d # ds) (File n c) = Inl NotADirectoryError"
| "mkdir_p (d # ds) (Special n) = Inl NotADirectoryError"
| "mkdir_p (d # ds) (Dangling n) = Inl FileExistsError"
| "mkdir_p (d # ds) (Unreadable n) = Inl PermissionError"

text \<open>
  Writing a file: its directory must exist; a regular file of that name is replaced, and
  writing through a dangling link creates the file the link points to, so that the path
  is a regular file afterwards.
\<close>

fun write_file :: "path \<Rightarrow> content \<Rightarrow> node \<Rightarrow> error + node" where
  "write_file [] c (File n old) = Inr (File n c)"
| "write_file [] c (Dir n k cs) = Inl IsADirectoryError"
| "write_file [] c (Special n) = Inl OSError"
| "write_file [] c (Dangling n) = Inr (File n c)"
| "write_file [] c (Unreadable n) = Inl PermissionError"
| "write_file (d # ds) c (Dir n k cs) =
     (case find_child d cs of
        None \<Rightarrow> if ds = [] then Inr (Dir n k (cs @ [File d c])) else Inl FileNotFoundError
      | Some x \<Rightarrow>
          (case write_file ds c x of
             Inl e \<Rightarrow> Inl e
           | Inr x' \<Rightarrow> Inr (Dir n k (replace_child d x' cs))))"
| "write_file (d # ds) c (File n old) = Inl NotADirectoryError"
| "write_file (d # ds) c (Special n) = Inl NotADirectoryError"
| "write_file (d # ds) c (Dangling n) = Inl FileNotFoundError"
| "write_file (d # ds) c (Unreadable n) = Inl PermissionError"

text \<open>\<^verbatim>\<open>Image.open(path)\<close> on the modelled file system.\<close>

definition open_image :: "node \<Rightarrow> path \<Rightarrow> error + image" where
  "open_image tree p =
     (case resolve tree p of
        None \<Rightarrow> Inl FileNotFoundError
      | Some (File n (Picture img)) \<Rightarrow> Inr img
      | Some (File n Junk) \<Rightarrow> Inl UnidentifiedImageError
      | Some (Dir n k cs) \<Rightarrow> Inl IsADirectoryError
      | Some (Special n) \<Rightarrow> Inl UnidentifiedImageError
      | Some (Dangling n) \<Rightarrow> Inl FileNotFoundError
      | Some (Unreadable n) \<Rightarrow> Inl PermissionError)"

section \<open>The world: a file system and the trace of library calls\<close>

text \<open>
  Every call of the source that touches the file system appends one event: a status
  query (\<^verbatim>\<open>exists\<close>, \<^verbatim>\<open>is_dir\<close>, \<^verbatim>\<open>is_file\<close>), the start of an \<^verbatim>\<open>rglob\<close>, a \<^verbatim>\<open>mkdir\<close>,
  an \<^verbatim>\<open>Image.open\<close>, and an \<^verbatim>\<open>img.save\<close> with its parameters and whether it returned.
\<close>

datatype event =
    EvStat path
  | EvGlob path
  | EvMkdir path
  | EvOpen path
  | EvSave path kwargs bool

record world =
  fs :: node
  events :: "event list"

definition emit :: "event \<Rightarrow> world \<Rightarrow> world" where
  "emit e w = w\<lparr>events := events w @ [e]\<rparr>"

text \<open>
  The collaborators the file system does not determine: \<^verbatim>\<open>img.convert('RGB')\<close>,
  \<^verbatim>\<open>piexif.dump({"Exif": d})\<close> and the JPEG encoder behind \<^verbatim>\<open>img.save\<close> (what it writes
  for an image and its parameters, or the exception it raises).
\<close>

record codec =
  to_rgb :: "image \<Rightarrow> error + image"
  dump :: "exif \<Rightarrow> error + string"
  encode :: "image \<Rightarrow> kwargs \<Rightarrow> error + content"

section \<open>The converter\<close>

record converter =
  quality :: int
  verbose :: bool

text \<open>
  \<^verbatim>\<open>HEICToJPGConverter.__init__\<close> stores its two arguments and configures logging. Its
  body has no check and no \<^verbatim>\<open>raise\<close>: the result type leaves room for a rejection that
  the code never produces.
\<close>

definition HEICToJPGConverter :: "int \<Rightarrow> bool \<Rightarrow> error + converter" where
  "HEICToJPGConverter q v = Inr \<lparr>quality = q, verbose = v\<rparr>"

subsection \<open>find_heic_files\<close>

definition heic_extensions :: "string set" where
  "heic_extensions = {''.heic'', ''.heif'', ''.HEIC'', ''.HEIF''}"

text \<open>
  The body of the \<^verbatim>\<open>for\<close> loop over \<^verbatim>\<open>rglob('*')\<close>, inside its \<^verbatim>\<open>try\<close>: an exception of
  \<^verbatim>\<open>is_file\<close> ends the loop and the files found so far are returned. The file system
  does not change during the walk, so the generator is taken as the list it yields.
\<close>

fun collect_heic :: "path list \<Rightarrow> path list \<Rightarrow> world \<Rightarrow> path list \<times> world" where
  "collect_heic [] heic_files w = (heic_files, w)"
| "collect_heic (p # ps) heic_files w =
     (let w1 = emit (EvStat p) w in
      case is_file (fs w1) p of
        Inl e \<Rightarrow> (heic_files, w1)
      | Inr regular \<Rightarrow>
          if regular \<and> suffix p \<in> heic_extensions
          then collect_heic ps (heic_files @ [p]) w1
          else collect_heic ps heic_files w1)"

definition find_heic_files :: "path \<Rightarrow> world \<Rightarrow> path list \<times> world" where
  "find_heic_files folder_path w =
     (let w1 = emit (EvGlob folder_path) w
      in collect_heic (rglob (fs w1) folder_path) [] w1)"

subsection \<open>preserve_metadata\<close>

text \<open>The dictionary \<^verbatim>\<open>metadata_info\<close>: each of its six keys is present or not.\<close>

record metadata =
  md_info :: "kwargs option"
  exif_raw :: "pyval option"
  xmp :: "pyval option"
  icc_profile :: "pyval option"
  exif_dict :: "exif option"
  legacy_exif :: "exif option"

definition no_metadata :: metadata where
  "no_metadata =
     \<lparr>md_info = None, exif_raw = None, xmp = None, icc_profile = None,
      exif_dict = None, legacy_exif = None\<rparr>"

text \<open>
  One \<^verbatim>\<open>if key in source_image.info\<close> block: the entry is stored, then its length is
  formatted for the log, which raises on a value without a length. The first component
  is the exception that leaves the block, if any.
\<close>

definition grab :: "string \<Rightarrow> (pyval \<Rightarrow> metadata \<Rightarrow> metadata) \<Rightarrow> image \<Rightarrow> metadata
    \<Rightarrow> error option \<times> metadata" where
  "grab k store img md =
     (case map_of (info img) k of
        None \<Rightarrow> (None, md)
      | Some v \<Rightarrow>
          (case py_len v of
             Inl e \<Rightarrow> (Some e, store v md)
           | Inr n \<Rightarrow> (None, store v md)))"

definition info_probe :: "image \<Rightarrow> metadata \<Rightarrow> error option \<times> metadata" where
  "info_probe img md =
     (if info img = [] then (None, md)
      else
        let md1 = md\<lparr>md_info := Some (info img)\<rparr> in
        case grab ''exif'' (\<lambda>v m. m\<lparr>exif_raw := Some v\<rparr>) img md1 of
          (Some e, md2) \<Rightarrow> (Some e, md2)
        | (None, md2) \<Rightarrow>
            (case grab ''xmp'' (\<lambda>v m. m\<lparr>xmp := Some v\<rparr>) img md2 of
               (Some e, md3) \<Rightarrow> (Some e, md3)
             | (None, md3) \<Rightarrow> grab ''icc_profile'' (\<lambda>v m. m\<lparr>icc_profile := Some v\<rparr>) img md3))"

definition exif_probe :: "image \<Rightarrow> metadata \<Rightarrow> metadata" where
  "exif_probe img md =
     (case getexif img of
        Inl e \<Rightarrow> md
      | Inr d \<Rightarrow> if d \<noteq> [] then md\<lparr>exif_dict := Some d\<rparr> else md)"

definition legacy_probe :: "image \<Rightarrow> metadata \<Rightarrow> metadata" where
  "legacy_probe img md =
     (case legacy_getexif img of
        None \<Rightarrow> md
      | Some (Inl e) \<Rightarrow> md
      | Some (Inr None) \<Rightarrow> md
      | Some (Inr (Some d)) \<Rightarrow> if d \<noteq> [] then md\<lparr>legacy_exif := Some d\<rparr> else md)"

text \<open>
  An exception in the \<^verbatim>\<open>info\<close> block reaches the outer handler, so the two EXIF probes
  after it are skipped; each of those has a handler of its own. The parameter
  \<^verbatim>\<open>target_path\<close> is not read by the body and is left out.
\<close>

definition preserve_metadata :: "image \<Rightarrow> metadata" where
  "preserve_metadata source_image =
     (case info_probe source_image no_metadata of
        (Some e, md) \<Rightarrow> md
      | (None, md) \<Rightarrow> legacy_probe source_image (exif_probe source_image md))"

subsection \<open>verify_metadata_preservation\<close>

record verification =
  exif_preserved :: bool
  icc_profile_preserved :: bool
  metadata_count_original :: nat
  metadata_count_converted :: nat
  preserved_tags :: "key list"

definition no_verification :: verification where
  "no_verification =
     \<lparr>exif_preserved = False, icc_profile_preserved = False,
      metadata_count_original = 0, metadata_count_converted = 0, preserved_tags = []\<rparr>"

text \<open>
  Both images are opened again and read; every exception ends the check with what the
  record holds by then. The file system is only read.
\<close>

definition verify_metadata_preservation :: "path \<Rightarrow> path \<Rightarrow> world \<Rightarrow> verification \<times> world" where
  "verify_metadata_preservation original_path converted_path w =
     (let w1 = emit (EvOpen original_path) w in
      case open_image (fs w1) original_path of
        Inl e \<Rightarrow> (no_verification, w1)
      | Inr original_img \<Rightarrow>
          let original_metadata = preserve_metadata original_img;
              v1 = no_verification\<lparr>metadata_count_original :=
                     (case md_info original_metadata of None \<Rightarrow> 0 | Some i \<Rightarrow> length i)\<rparr>;
              w2 = emit (EvOpen converted_path) w1
          in
          case open_image (fs w2) converted_path of
            Inl e \<Rightarrow> (v1, w2)
          | Inr converted_img \<Rightarrow>
              (case getexif converted_img of
                 Inl e \<Rightarrow> (v1, w2)
               | Inr converted_exif \<Rightarrow>
                   let v2 = v1\<lparr>metadata_count_converted := length (info converted_img),
                               exif_preserved := (0 < length converted_exif),
                               icc_profile_preserved :=
                                 (map_of (info converted_img) ''icc_profile'' \<noteq> None)\<rparr>
                   in (if converted_exif \<noteq> []
                       then v2\<lparr>preserved_tags := map fst converted_exif\<rparr> else v2, w2)))"

subsection \<open>convert_single_file\<close>

text \<open>\<^verbatim>\<open>isinstance(tag_id, int) and tag_id in range(0, 65536)\<close>\<close>

fun valid_tag :: "key \<Rightarrow> bool" where
  "valid_tag (KInt i) = (0 \<le> i \<and> i < 65536)"
| "valid_tag (KStr s) = False"

text \<open>\<^verbatim>\<open>not exif_data\<close>, where \<^verbatim>\<open>exif_data\<close> is \<^verbatim>\<open>None\<close> or a payload.\<close>

definition falsy :: "pyval option \<Rightarrow> bool" where
  "falsy x = (case x of None \<Rightarrow> True | Some v \<Rightarrow> \<not> truthy v)"

text \<open>The loop that fills \<^verbatim>\<open>exif_ifd\<close> from the items of the structured EXIF dictionary.\<close>

definition exif_ifd_of :: "exif \<Rightarrow> exif" where
  "exif_ifd_of d =
     fold (\<lambda>(tag_id, v) ifd. if valid_tag tag_id then AList.update tag_id v ifd else ifd) d []"

definition first_try :: "metadata \<Rightarrow> pyval option" where
  "first_try md = (case exif_raw md of Some v \<Rightarrow> Some v | None \<Rightarrow> None)"

definition second_try :: "codec \<Rightarrow> metadata \<Rightarrow> pyval option \<Rightarrow> pyval option" where
  "second_try cd md exif_data =
     (case exif_dict md of
        None \<Rightarrow> exif_data
      | Some d \<Rightarrow>
          if falsy exif_data then
            (let exif_ifd = exif_ifd_of d in
             if exif_ifd \<noteq> [] then
               (case dump cd exif_ifd of
                  Inl e \<Rightarrow> exif_data
                | Inr b \<Rightarrow> Some (PBytes b))
             else exif_data)
          else exif_data)"

definition third_try :: "codec \<Rightarrow> metadata \<Rightarrow> pyval option \<Rightarrow> pyval option" where
  "third_try cd md exif_data =
     (case legacy_exif md of
        None \<Rightarrow> exif_data
      | Some d \<Rightarrow>
          if falsy exif_data then
            (case dump cd d of
               Inl e \<Rightarrow> exif_data
             | Inr b \<Rightarrow> Some (PBytes b))
          else exif_data)"

text \<open>The value of \<^verbatim>\<open>exif_data\<close> after the three tries.\<close>

definition select_exif :: "codec \<Rightarrow> metadata \<Rightarrow> pyval option" where
  "select_exif cd md = third_try cd md (second_try cd md (first_try md))"

text \<open>The loop over \<^verbatim>\<open>metadata['info'].items()\<close> that copies the other scalar entries.\<close>

definition add_other_info :: "kwargs \<Rightarrow> kwargs \<Rightarrow> kwargs" where
  "add_other_info items kw =
     fold (\<lambda>(k, v) acc.
            if k \<notin> {''exif'', ''icc_profile'', ''xmp''} \<and> is_scalar v
            then AList.update k v acc else acc) items kw"

text \<open>\<^verbatim>\<open>save_kwargs\<close> as it stands when \<^verbatim>\<open>img.save\<close> is called.\<close>

definition save_kwargs :: "codec \<Rightarrow> int \<Rightarrow> metadata \<Rightarrow> kwargs" where
  "save_kwargs cd q md =
     (let kw0 = [(''format'', PStr ''JPEG''), (''quality'', PInt q), (''optimize'', PBool True)];
          kw1 = (case select_exif cd md of
                   None \<Rightarrow> kw0
                 | Some v \<Rightarrow> if truthy v then AList.update ''exif'' v kw0 else kw0);
          kw2 = (case icc_profile md of
                   None \<Rightarrow> kw1
                 | Some v \<Rightarrow> AList.update ''icc_profile'' v kw1)
      in case md_info md of
           None \<Rightarrow> kw2
         | Some items \<Rightarrow> add_other_info items kw2)"

text \<open>
  \<^verbatim>\<open>img.save(output_path, **save_kwargs)\<close>: the encoder runs and the file is written, or
  an exception leaves the file system as it was.
\<close>

definition save :: "codec \<Rightarrow> image \<Rightarrow> path \<Rightarrow> kwargs \<Rightarrow> world \<Rightarrow> (error + unit) \<times> world" where
  "save cd img p kw w =
     (case encode cd img kw of
        Inl e \<Rightarrow> (Inl e, emit (EvSave p kw False) w)
      | Inr c \<Rightarrow>
          (case write_file p c (fs w) of
             Inl e \<Rightarrow> (Inl e, emit (EvSave p kw False) w)
           | Inr tree' \<Rightarrow> (Inr (), (emit (EvSave p kw True) w)\<lparr>fs := tree'\<rparr>)))"

text \<open>
  The first lines of the \<^verbatim>\<open>try\<close>: the output directory is created when one is given
  (a \<^verbatim>\<open>Path\<close> is always true in a condition), and the output path is computed.
\<close>

definition output_location :: "path \<Rightarrow> path option \<Rightarrow> world \<Rightarrow> (error + path) \<times> world" where
  "output_location source_path output_folder w =
     (case output_folder of
        Some folder \<Rightarrow>
          (let w1 = emit (EvMkdir folder) w in
           case mkdir_p folder (fs w1) of
             Inl e \<Rightarrow> (Inl e, w1)
           | Inr tree' \<Rightarrow> (Inr (folder @ [stem source_path @ ''.jpg'']), w1\<lparr>fs := tree'\<rparr>))
      | None \<Rightarrow> (Inr (parent source_path @ [stem source_path @ ''.jpg'']), w))"

text \<open>\<^verbatim>\<open>if img.mode != 'RGB': img = img.convert('RGB')\<close>\<close>

definition ensure_rgb :: "codec \<Rightarrow> image \<Rightarrow> error + image" where
  "ensure_rgb cd img = (if mode img \<noteq> ''RGB'' then to_rgb cd img else Inr img)"

text \<open>The body of the \<^verbatim>\<open>try\<close> of \<^verbatim>\<open>convert_single_file\<close>: \<^verbatim>\<open>Inl\<close> is an exception raised in it.\<close>

definition convert_body :: "codec \<Rightarrow> converter \<Rightarrow> path \<Rightarrow> path option \<Rightarrow> world
    \<Rightarrow> (error + bool) \<times> world" where
  "convert_body cd cv source_path output_folder w =
     (case output_location source_path output_folder w of
        (Inl e, w1) \<Rightarrow> (Inl e, w1)
      | (Inr output_path, w1) \<Rightarrow>
          let w2 = emit (EvStat output_path) w1 in
          case path_exists (fs w2) output_path of
            Inl e \<Rightarrow> (Inl e, w2)
          | Inr True \<Rightarrow> (Inr True, w2)
          | Inr False \<Rightarrow>
              let w3 = emit (EvOpen source_path) w2 in
              case open_image (fs w3) source_path of
                Inl e \<Rightarrow> (Inl e, w3)
              | Inr opened \<Rightarrow>
                  (case ensure_rgb cd opened of
                     Inl e \<Rightarrow> (Inl e, w3)
                   | Inr img \<Rightarrow>
                       let md = preserve_metadata img;
                           kw = save_kwargs cd (quality cv) md
                       in
                       case save cd img output_path kw w3 of
                         (Inl e, w4) \<Rightarrow> (Inl e, w4)
                       | (Inr u, w4) \<Rightarrow>
                           (Inr True,
                            if verbose cv
                            then snd (verify_metadata_preservation source_path output_path w4)
                            else w4)))"

text \<open>\<^verbatim>\<open>except Exception\<close>: the error is logged and the call returns \<^verbatim>\<open>False\<close>.\<close>

definition convert_single_file :: "codec \<Rightarrow> converter \<Rightarrow> path \<Rightarrow> path option \<Rightarrow> world
    \<Rightarrow> bool \<times> world" where
  "convert_single_file cd cv source_path output_folder w =
     (case convert_body cd cv source_path output_folder w of
        (Inl e, w') \<Rightarrow> (False, w')
      | (Inr success, w') \<Rightarrow> (success, w'))"

subsection \<open>convert_folder\<close>

record stats =
  total :: nat
  converted :: nat
  failed :: nat
  skipped :: nat

text \<open>
  The loop calls \<^verbatim>\<open>self.convert_single_file\<close>. The loop and the folder conversion are
  first written over any procedure of that signature, one that may also raise, so that
  the handler around the call is covered; \<^verbatim>\<open>convert_folder\<close> itself is the instance at
  the converter's own method.
\<close>

type_synonym single_file = "path \<Rightarrow> path option \<Rightarrow> world \<Rightarrow> (error + bool) \<times> world"

text \<open>The body of the \<^verbatim>\<open>try\<close> inside the loop, for one file.\<close>

definition process_file :: "single_file \<Rightarrow> path \<Rightarrow> path option \<Rightarrow> path \<Rightarrow> world
    \<Rightarrow> (error + bool) \<times> world" where
  "process_file conv input_path output_path heic_file w =
     (case output_path of
        Some out \<Rightarrow>
          (case relative_to heic_file input_path of
             Inl e \<Rightarrow> (Inl e, w)
           | Inr relative_path \<Rightarrow> conv heic_file (Some (out @ parent relative_path)) w)
      | None \<Rightarrow> conv heic_file None w)"

fun convert_each :: "single_file \<Rightarrow> path \<Rightarrow> path option \<Rightarrow> path list \<Rightarrow> stats \<Rightarrow> world
    \<Rightarrow> stats \<times> world" where
  "convert_each conv input_path output_path [] st w = (st, w)"
| "convert_each conv input_path output_path (heic_file # rest) st w =
     (case process_file conv input_path output_path heic_file w of
        (Inr True, w') \<Rightarrow>
          convert_each conv input_path output_path rest (st\<lparr>converted := converted st + 1\<rparr>) w'
      | (Inr False, w') \<Rightarrow>
          convert_each conv input_path output_path rest (st\<lparr>failed := failed st + 1\<rparr>) w'
      | (Inl e, w') \<Rightarrow>
          convert_each conv input_path output_path rest (st\<lparr>failed := failed st + 1\<rparr>) w')"

text \<open>
  The success rate formatted into the summary: \<^verbatim>\<open>stats['converted'] / stats['total'] * 100\<close>,
  a \<^verbatim>\<open>ZeroDivisionError\<close> when the total is zero.
\<close>

definition success_rate :: "stats \<Rightarrow> error + rat" where
  "success_rate st =
     (if total st = 0 then Inl ZeroDivisionError
      else Inr (of_nat (converted st) / of_nat (total st) * 100))"

definition convert_folder_with :: "single_file \<Rightarrow> path \<Rightarrow> path option \<Rightarrow> world
    \<Rightarrow> (error + stats) \<times> world" where
  "convert_folder_with conv input_path output_path w =
     (let w1 = emit (EvStat input_path) w in
      case path_exists (fs w1) input_path of
        Inl e \<Rightarrow> (Inl e, w1)
      | Inr False \<Rightarrow> (Inl (ValueError ''Input folder does not exist''), w1)
      | Inr True \<Rightarrow>
          let w2 = emit (EvStat input_path) w1 in
          case is_dir (fs w2) input_path of
            Inl e \<Rightarrow> (Inl e, w2)
          | Inr False \<Rightarrow> (Inl (ValueError ''Input path is not a directory''), w2)
          | Inr True \<Rightarrow>
              (case find_heic_files input_path w2 of
                 (heic_files, w3) \<Rightarrow>
                   if heic_files = []
                   then (Inr \<lparr>total = 0, converted = 0, failed = 0, skipped = 0\<rparr>, w3)
                   else
                     (case convert_each conv input_path output_path heic_files
                             \<lparr>total = length heic_files, converted = 0, failed = 0, skipped = 0\<rparr> w3 of
                        (st, w4) \<Rightarrow>
                          (case success_rate st of
                             Inl e \<Rightarrow> (Inl e, w4)
                           | Inr rate \<Rightarrow> (Inr st, w4)))))"

definition own_method :: "codec \<Rightarrow> converter \<Rightarrow> single_file" where
  "own_method cd cv source_path output_folder w =
     (case convert_single_file cd cv source_path output_folder w of
        (success, w') \<Rightarrow> (Inr success, w'))"

definition convert_folder :: "codec \<Rightarrow> converter \<Rightarrow> path \<Rightarrow> path option \<Rightarrow> world
    \<Rightarrow> (error + stats) \<times> world" where
  "convert_folder cd cv input_folder output_folder w =
     convert_folder_with (own_method cd cv) input_folder output_folder w"

subsection \<open>main\<close>

text \<open>
  The parsed command line, what is printed, and the exit status. \<^verbatim>\<open>sys.exit\<close> raises
  \<^verbatim>\<open>SystemExit\<close>, which \<^verbatim>\<open>except Exception\<close> does not catch, so the three exits inside
  the \<^verbatim>\<open>try\<close> leave with their own status.
\<close>

record cli_args =
  arg_input_folder :: path
  arg_output :: "path option"
  arg_quality :: int
  arg_verbose :: bool

datatype printed = QualityMessage | ErrorMessage error

definition main :: "codec \<Rightarrow> cli_args \<Rightarrow> world \<Rightarrow> nat \<times> printed list \<times> world" where
  "main cd args w =
     (if \<not> (1 \<le> arg_quality args \<and> arg_quality args \<le> 100)
      then (1, [QualityMessage], w)
      else
        case HEICToJPGConverter (arg_quality args) (arg_verbose args) of
          Inl e \<Rightarrow> (1, [], w)
        | Inr cv \<Rightarrow>
            (case convert_folder cd cv (arg_input_folder args) (arg_output args) w of
               (Inl e, w') \<Rightarrow> (3, [ErrorMessage e], w')
             | (Inr st, w') \<Rightarrow>
                 (if failed st = 0 then 0 else if converted st > 0 then 1 else 2, [], w')))"

section \<open>The statements of the specification, in its own words\<close>

text \<open>
  Case-insensitive comparison of the extension, as the specification describes discovery:
  the lowercased suffix is \<^verbatim>\<open>.heic\<close> or \<^verbatim>\<open>.heif\<close>.
\<close>

definition ascii_lower :: "char \<Rightarrow> char" where
  "ascii_lower c =
     (if 65 \<le> (of_char c :: nat) \<and> (of_char c :: nat) \<le> 90
      then char_of ((of_char c :: nat) + 32) else c)"

definition lowercase_match :: "path \<Rightarrow> bool" where
  "lowercase_match p = (map ascii_lower (suffix p) \<in> {''.heic'', ''.heif''})"





text \<open>
  The output path of a conversion, and the events of a call that finds it present: the
  \<^verbatim>\<open>mkdir\<close> when an output folder is given, then the \<^verbatim>\<open>exists\<close> query.
\<close>

definition output_path_of :: "path \<Rightarrow> path option \<Rightarrow> path" where
  "output_path_of source_path output_folder =
     (case output_folder of
        Some folder \<Rightarrow> folder @ [stem source_path @ ''.jpg'']
      | None \<Rightarrow> parent source_path @ [stem source_path @ ''.jpg''])"

definition skip_events :: "path \<Rightarrow> path option \<Rightarrow> event list" where
  "skip_events source_path output_folder =
     (case output_folder of Some folder \<Rightarrow> [EvMkdir folder] | None \<Rightarrow> [])
       @ [EvStat (output_path_of source_path output_folder)]"

text \<open>The outcome of each file of a batch, in order, as the loop meets them.\<close>

fun outcomes :: "single_file \<Rightarrow> path \<Rightarrow> path option \<Rightarrow> path list \<Rightarrow> world
    \<Rightarrow> (error + bool) list" where
  "outcomes conv input_path output_path [] w = []"
| "outcomes conv input_path output_path (heic_file # rest) w =
     (case process_file conv input_path output_path heic_file w of
        (r, w') \<Rightarrow> r # outcomes conv input_path output_path rest w')"

text \<open>A completed encode: an \<^verbatim>\<open>img.save\<close> that returned.\<close>

fun completed_save :: "event \<Rightarrow> bool" where
  "completed_save (EvSave p kw ok) = ok"
| "completed_save (EvStat p) = False"
| "completed_save (EvGlob p) = False"
| "completed_save (EvMkdir p) = False"
| "completed_save (EvOpen p) = False"

fun decode_or_encode :: "event \<Rightarrow> bool" where
  "decode_or_encode (EvSave p kw ok) = True"
| "decode_or_encode (EvOpen p) = True"
| "decode_or_encode (EvStat p) = False"
| "decode_or_encode (EvGlob p) = False"
| "decode_or_encode (EvMkdir p) = False"

text \<open>
  The discovery as \<^verbatim>\<open>convert_folder\<close> runs it, after its two checks of the input path, and
  the run \<^verbatim>\<open>main\<close> makes once the quality has passed its check.
\<close>

definition discovery :: "path \<Rightarrow> world \<Rightarrow> path list \<times> world" where
  "discovery input_path w =
     find_heic_files input_path (emit (EvStat input_path) (emit (EvStat input_path) w))"

definition cli_run :: "codec \<Rightarrow> cli_args \<Rightarrow> world \<Rightarrow> (error + stats) \<times> world" where
  "cli_run cd args w =
     convert_folder cd \<lparr>quality = arg_quality args, verbose = arg_verbose args\<rparr>
       (arg_input_folder args) (arg_output args) w"

text \<open>
  A tree the walk covers in full: every directory in it is an ordinary one that can be
  listed, and the status of every entry can be read.
\<close>

fun walkable :: "node \<Rightarrow> bool"
  and walkable_all :: "node list \<Rightarrow> bool" where
  "walkable (Dir n k cs) = (k = Listable \<and> walkable_all cs)"
| "walkable (File n c) = True"
| "walkable (Special n) = True"
| "walkable (Dangling n) = True"
| "walkable (Unreadable n) = False"
| "walkable_all [] = True"
| "walkable_all (c # cs) = (walkable c \<and> walkable_all cs)"

section \<open>Concrete inputs\<close>

definition plain_image :: image where
  "plain_image = \<lparr>mode = ''RGB'', info = [], getexif = Inr [], legacy_getexif = None\<rparr>"

definition tagged_image :: image where
  "tagged_image =
     \<lparr>mode = ''RGBA'',
      info = [(''exif'', PBytes ''Exif-raw''), (''xmp'', PBytes ''<x/>''),
              (''icc_profile'', PBytes ''icc''), (''dpi'', PInt 72)],
      getexif = Inr [(KInt 271, PStr ''maker''), (KInt 34665, PInt 90)],
      legacy_getexif = Some (Inr (Some [(KInt 306, PStr ''2024:01:01'')]))\<rparr>"

definition dict_image :: image where
  "dict_image =
     \<lparr>mode = ''RGB'', info = [],
      getexif = Inr [(KInt 271, PStr ''maker''), (KInt 34665, PInt 90)],
      legacy_getexif = None\<rparr>"


text \<open>
  An image whose \<^verbatim>\<open>info\<close> has an \<^verbatim>\<open>exif\<close> entry that holds \<^verbatim>\<open>None\<close>, as a HEIF decoder
  stores it for a file without an EXIF block.
\<close>

definition bare_heif_image :: image where
  "bare_heif_image =
     \<lparr>mode = ''RGB'', info = [(''exif'', PNone), (''xmp'', PBytes ''<x/>'')],
      getexif = Inr [], legacy_getexif = None\<rparr>"

definition xmp_image :: image where
  "xmp_image =
     \<lparr>mode = ''RGB'', info = [(''xmp'', PBytes ''<x/>'')], getexif = Inr [],
      legacy_getexif = None\<rparr>"

text \<open>
  A codec that always succeeds; its \<^verbatim>\<open>dump\<close> writes one byte for each entry it is given,
  \<^verbatim>\<open>v\<close> for a valid tag and \<^verbatim>\<open>!\<close> for any other key.
\<close>

definition demo_codec :: codec where
  "demo_codec =
     \<lparr>to_rgb = (\<lambda>i. Inr (i\<lparr>mode := ''RGB''\<rparr>)),
      dump = (\<lambda>d. Inr (map (\<lambda>(k, v). if valid_tag k then CHR ''v'' else CHR ''!'') d)),
      encode = (\<lambda>i kw. Inr (Picture i))\<rparr>"

text \<open>A codec whose \<^verbatim>\<open>piexif.dump\<close> always raises, while decoder and encoder work.\<close>

definition strict_codec :: codec where
  "strict_codec =
     \<lparr>to_rgb = (\<lambda>i. Inr (i\<lparr>mode := ''RGB''\<rparr>)),
      dump = (\<lambda>d. Inl (CodecError ''dump'')),
      encode = (\<lambda>i kw. Inr (Picture i))\<rparr>"

text \<open>A codec whose \<^verbatim>\<open>piexif.dump\<close> and whose encoder always raise.\<close>

definition broken_codec :: codec where
  "broken_codec =
     \<lparr>to_rgb = (\<lambda>i. Inl (CodecError ''convert'')),
      dump = (\<lambda>d. Inl (CodecError ''dump'')),
      encode = (\<lambda>i kw. Inl (CodecError ''encode''))\<rparr>"

definition demo_converter :: converter where
  "demo_converter = \<lparr>quality = 95, verbose = True\<rparr>"

definition demo_entries :: "node list" where
  "demo_entries =
     [File ''a.Heic'' Junk,
      File ''b.heic'' (Picture plain_image),
      Dir ''sub'' Listable [File ''c.HEIF'' Junk, File ''d.jpg'' Junk,
                            File ''e.heif'' (Picture tagged_image)],
      Dir ''docs'' Listable [File ''notes.txt'' Junk]]"

definition demo_world :: world where
  "demo_world = \<lparr>fs = Dir [] Listable demo_entries, events = []\<rparr>"

text \<open>
  A world in which one output path cannot be inspected (\<^verbatim>\<open>b.jpg\<close>), another is already
  present (\<^verbatim>\<open>f.jpg\<close>), and two sources carry metadata whose handling raises.
\<close>

definition locked_world :: world where
  "locked_world =
     \<lparr>fs = Dir [] Listable
        [File ''b.heic'' (Picture plain_image), Unreadable ''b.jpg'',
         File ''f.heic'' (Picture plain_image), File ''f.jpg'' Junk,
         File ''h.heic'' (Picture bare_heif_image),
         File ''d.heic'' (Picture dict_image),
         Dir ''sub'' Listable [File ''c.HEIF'' Junk, File ''e.heif'' (Picture tagged_image),
                               File ''g.heic'' Junk]],
      events = []\<rparr>"

text \<open>
  A world with a directory that cannot be listed, a link to a directory, and a
  subdirectory holding an entry whose status cannot be read between two images.
\<close>

definition walk_entries :: "node list" where
  "walk_entries =
     [File ''a.heic'' Junk,
      Dir ''priv'' Unlistable [File ''p.heic'' Junk],
      Dir ''link'' Linked [File ''l.heic'' Junk],
      Dir ''sub'' Listable [File ''s.HEIC'' Junk, Unreadable ''u.heic'', File ''t.heic'' Junk]]"

definition walk_world :: world where
  "walk_world = \<lparr>fs = Dir [] Listable walk_entries, events = []\<rparr>"

text \<open>A single-file procedure that raises on one file and is the converter's own elsewhere.\<close>

definition flaky_method :: single_file where
  "flaky_method source_path output_folder w =
     (if source_path = [''b.heic''] then (Inl (CodecError ''unexpected''), w)
      else own_method demo_codec demo_converter source_path output_folder w)"

text \<open>Command lines: a quality out of range, a run over the whole concrete world, an
  input path that does not exist, one that is a file, and a folder without images.\<close>

definition bad_quality_args :: cli_args where
  "bad_quality_args =
     \<lparr>arg_input_folder = [], arg_output = None, arg_quality = 0, arg_verbose = False\<rparr>"

definition demo_args :: cli_args where
  "demo_args =
     \<lparr>arg_input_folder = [], arg_output = None, arg_quality = 95, arg_verbose = False\<rparr>"

definition missing_args :: cli_args where
  "missing_args =
     \<lparr>arg_input_folder = [''nope''], arg_output = None, arg_quality = 95, arg_verbose = False\<rparr>"

definition file_args :: cli_args where
  "file_args =
     \<lparr>arg_input_folder = [''b.heic''], arg_output = None, arg_quality = 95, arg_verbose = False\<rparr>"

definition docs_args :: cli_args where
  "docs_args =
     \<lparr>arg_input_folder = [''docs''], arg_output = Some [''out''], arg_quality = 1,
      arg_verbose = True\<rparr>"

section \<open>Properties\<close>

subsection \<open>The event trace\<close>

lemma fs_emit [simp]: "fs (emit e w) = fs w"
  by (simp add: emit_def)

lemma events_emit [simp]: "events (emit e w) = events w @ [e]"
  by (simp add: emit_def)

subsection \<open>The batch loop\<close>

lemma length_outcomes: "length (outcomes conv i out files w) = length files"
  by (induction files arbitrary: w) (auto split: prod.splits)

text \<open>
  The loop leaves \<^verbatim>\<open>total\<close> and \<^verbatim>\<open>skipped\<close> alone and adds to \<^verbatim>\<open>converted\<close> the number of
  files whose outcome is \<^verbatim>\<open>True\<close>, to \<^verbatim>\<open>failed\<close> the number of all others.
\<close>

lemma convert_each_counts:
  "convert_each conv i out files st w = (st', w') \<Longrightarrow>
     total st' = total st \<and> skipped st' = skipped st \<and>
     converted st' =
       converted st + length (filter (\<lambda>r. r = Inr True) (outcomes conv i out files w)) \<and>
     failed st' =
       failed st + length (filter (\<lambda>r. r \<noteq> Inr True) (outcomes conv i out files w))"
proof (induction files arbitrary: st w)
  case Nil
  then show ?case by simp
next
  case (Cons f files)
  obtain r w1 where step: "process_file conv i out f w = (r, w1)"
    by (cases "process_file conv i out f w")
  show ?case
  proof (cases r)
    case (Inl e)
    with step Cons.prems
    have "convert_each conv i out files (st\<lparr>failed := failed st + 1\<rparr>) w1 = (st', w')"
      by simp
    from Cons.IH [OF this] step Inl show ?thesis by simp
  next
    case (Inr b)
    show ?thesis
    proof (cases b)
      case True
      with step Inr Cons.prems
      have "convert_each conv i out files (st\<lparr>converted := converted st + 1\<rparr>) w1 = (st', w')"
        by simp
      from Cons.IH [OF this] step Inr True show ?thesis by simp
    next
      case False
      with step Inr Cons.prems
      have "convert_each conv i out files (st\<lparr>failed := failed st + 1\<rparr>) w1 = (st', w')"
        by simp
      from Cons.IH [OF this] step Inr False show ?thesis by simp
    qed
  qed
qed

lemma filter_split_length:
  "length (filter P xs) + length (filter (\<lambda>x. \<not> P x) xs) = length xs"
  by (induction xs) auto

text \<open>A folder conversion that returns either found nothing or ran the loop over what it found.\<close>

lemma convert_folder_with_cases:
  assumes "convert_folder_with conv i out w = (Inr st, w')"
  shows "(fst (discovery i w) = [] \<and> st = \<lparr>total = 0, converted = 0, failed = 0, skipped = 0\<rparr>) \<or>
         (fst (discovery i w) \<noteq> [] \<and>
          fst (convert_each conv i out (fst (discovery i w))
             \<lparr>total = length (fst (discovery i w)), converted = 0, failed = 0, skipped = 0\<rparr>
             (snd (discovery i w))) = st)"
  using assms
  by (auto simp: convert_folder_with_def discovery_def Let_def
           split: sum.splits bool.splits prod.splits if_splits)

lemma convert_each_total:
  "total (fst (convert_each conv i out files st w)) = total st"
  using convert_each_counts [of conv i out files st w] by (metis prod.collapse)

lemma path_exists_error: "path_exists t p = Inl e \<Longrightarrow> e = PermissionError"
  by (auto simp: path_exists_def split: option.splits node.splits)

lemma is_dir_error: "is_dir t p = Inl e \<Longrightarrow> e = PermissionError"
  by (auto simp: is_dir_def split: option.splits node.splits)

text \<open>Two runs over the concrete world, evaluated.\<close>

lemma flaky_run:
  "convert_folder_with flaky_method [] None demo_world =
     (Inr \<lparr>total = 3, converted = 1, failed = 2, skipped = 0\<rparr>,
      snd (convert_folder_with flaky_method [] None demo_world))"
proof -
  have "fst (convert_folder_with flaky_method [] None demo_world) =
          Inr \<lparr>total = 3, converted = 1, failed = 2, skipped = 0\<rparr>"
    by code_simp
  then show ?thesis
    by (cases "convert_folder_with flaky_method [] None demo_world") simp
qed

lemma flaky_outcomes:
  "outcomes flaky_method [] None (fst (discovery [] demo_world)) (snd (discovery [] demo_world)) =
     [Inl (CodecError ''unexpected''), Inr False, Inr True]"
  by code_simp

lemma demo_run:
  "convert_folder_with (own_method demo_codec demo_converter) [] None demo_world =
     (Inr \<lparr>total = 3, converted = 2, failed = 1, skipped = 0\<rparr>,
      snd (convert_folder_with (own_method demo_codec demo_converter) [] None demo_world))"
proof -
  have "fst (convert_folder_with (own_method demo_codec demo_converter) [] None demo_world) =
          Inr \<lparr>total = 3, converted = 2, failed = 1, skipped = 0\<rparr>"
    by code_simp
  then show ?thesis
    by (cases "convert_folder_with (own_method demo_codec demo_converter) [] None demo_world") simp
qed

text \<open>
  C5. Whenever a folder conversion returns, whatever the single-file procedure does on
  each file (return true, return false or raise), the returned statistics satisfy
  \<^verbatim>\<open>converted + failed = total\<close>, where \<^verbatim>\<open>total\<close> is the number of discovered files. Every
  discovered file has exactly one outcome: the files whose outcome is true are the ones
  counted as converted, all others (false, or an exception) are counted as failed, and
  the loop goes on after an exception. \<^verbatim>\<open>convert_folder\<close> is the case where the procedure
  is the converter's own \<^verbatim>\<open>convert_single_file\<close>.
\<close>

theorem convert_folder_counts_every_file:
  assumes "convert_folder_with conv i out w = (Inr st, w')"
  shows "converted st + failed st = total st \<and>
         total st = length (fst (discovery i w)) \<and>
         length (outcomes conv i out (fst (discovery i w)) (snd (discovery i w))) = total st \<and>
         converted st = length (filter (\<lambda>r. r = Inr True)
            (outcomes conv i out (fst (discovery i w)) (snd (discovery i w)))) \<and>
         failed st = length (filter (\<lambda>r. r \<noteq> Inr True)
            (outcomes conv i out (fst (discovery i w)) (snd (discovery i w))))"
proof -
  let ?files = "fst (discovery i w)"
  let ?rs = "outcomes conv i out ?files (snd (discovery i w))"
  from convert_folder_with_cases [OF assms]
  consider (none) "?files = []" "st = \<lparr>total = 0, converted = 0, failed = 0, skipped = 0\<rparr>"
    | (some) "?files \<noteq> []"
        "fst (convert_each conv i out ?files
           \<lparr>total = length ?files, converted = 0, failed = 0, skipped = 0\<rparr>
           (snd (discovery i w))) = st"
    by blast
  then show ?thesis
  proof cases
    case none
    then show ?thesis by simp
  next
    case some
    obtain w4 where run: "convert_each conv i out ?files
           \<lparr>total = length ?files, converted = 0, failed = 0, skipped = 0\<rparr>
           (snd (discovery i w)) = (st, w4)"
      using some(2) by (metis prod.collapse)
    from convert_each_counts [OF run]
    have c: "total st = length ?files"
      "converted st = length (filter (\<lambda>r. r = Inr True) ?rs)"
      "failed st = length (filter (\<lambda>r. r \<noteq> Inr True) ?rs)"
      by simp_all
    have "length (filter (\<lambda>r. r = Inr True) ?rs) + length (filter (\<lambda>r. r \<noteq> Inr True) ?rs)
            = length ?rs"
      by (rule filter_split_length)
    with c show ?thesis by (simp add: length_outcomes)
  qed
qed

text \<open>
  On the concrete world and a procedure that raises on the first file: the run returns,
  the first outcome is the exception, the two files after it are still processed, and
  the counters are 1 + 2 = 3.
\<close>

theorem convert_folder_counts_every_file_witness:
  "convert_folder_with flaky_method [] None demo_world =
     (Inr \<lparr>total = 3, converted = 1, failed = 2, skipped = 0\<rparr>,
      snd (convert_folder_with flaky_method [] None demo_world)) \<and>
   outcomes flaky_method [] None (fst (discovery [] demo_world)) (snd (discovery [] demo_world)) =
     [Inl (CodecError ''unexpected''), Inr False, Inr True] \<and>
   converted \<lparr>total = 3, converted = 1, failed = 2, skipped = 0\<rparr>
     + failed \<lparr>total = 3, converted = 1, failed = 2, skipped = 0\<rparr>
     = total \<lparr>total = 3, converted = 1, failed = 2, skipped = 0\<rparr> \<and>
   length (fst (discovery [] demo_world)) = 3"
  using convert_folder_counts_every_file [OF flaky_run] flaky_run flaky_outcomes
  by simp

text \<open>
  C10. The division of the summary is never evaluated with a total of zero: no folder
  conversion ends in \<^verbatim>\<open>ZeroDivisionError\<close>, and a conversion that returns either found
  no file and returned the all-zero statistics before the summary, or has a positive
  total, for which the success rate is defined.
\<close>

theorem summary_never_divides_by_zero:
  "fst (convert_folder_with conv i out w) \<noteq> Inl ZeroDivisionError \<and>
   (convert_folder_with conv i out w = (Inr st, w') \<longrightarrow>
      (fst (discovery i w) = [] \<and> st = \<lparr>total = 0, converted = 0, failed = 0, skipped = 0\<rparr>) \<or>
      (0 < total st \<and> (\<exists>rate. success_rate st = Inr rate)))"
proof
  show "fst (convert_folder_with conv i out w) \<noteq> Inl ZeroDivisionError"
    by (auto simp: convert_folder_with_def Let_def success_rate_def convert_each_total
           split: sum.splits bool.splits prod.splits if_splits
           dest: path_exists_error is_dir_error
           dest!: arg_cong [where f = "\<lambda>x. total (fst x)"])
  show "convert_folder_with conv i out w = (Inr st, w') \<longrightarrow>
      (fst (discovery i w) = [] \<and> st = \<lparr>total = 0, converted = 0, failed = 0, skipped = 0\<rparr>) \<or>
      (0 < total st \<and> (\<exists>rate. success_rate st = Inr rate))"
  proof
    assume run: "convert_folder_with conv i out w = (Inr st, w')"
    from convert_folder_with_cases [OF run] show
      "(fst (discovery i w) = [] \<and> st = \<lparr>total = 0, converted = 0, failed = 0, skipped = 0\<rparr>) \<or>
       (0 < total st \<and> (\<exists>rate. success_rate st = Inr rate))"
    proof
      assume "fst (discovery i w) = [] \<and> st = \<lparr>total = 0, converted = 0, failed = 0, skipped = 0\<rparr>"
      then show ?thesis by simp
    next
      assume some: "fst (discovery i w) \<noteq> [] \<and>
          fst (convert_each conv i out (fst (discovery i w))
             \<lparr>total = length (fst (discovery i w)), converted = 0, failed = 0, skipped = 0\<rparr>
             (snd (discovery i w))) = st"
      then have "total st = length (fst (discovery i w))"
        using convert_each_total by (metis stats.select_convs(1))
      with some have "0 < total st" by simp
      then show ?thesis by (simp add: success_rate_def)
    qed
  qed
qed

theorem summary_never_divides_by_zero_witness:
  "convert_folder_with (own_method demo_codec demo_converter) [] None demo_world =
     (Inr \<lparr>total = 3, converted = 2, failed = 1, skipped = 0\<rparr>,
      snd (convert_folder_with (own_method demo_codec demo_converter) [] None demo_world)) \<and>
   (\<exists>rate. success_rate \<lparr>total = 3, converted = 2, failed = 1, skipped = 0\<rparr> = Inr rate)"
  using summary_never_divides_by_zero
          [of "own_method demo_codec demo_converter" "[]" None demo_world
              "\<lparr>total = 3, converted = 2, failed = 1, skipped = 0\<rparr>"
              "snd (convert_folder_with (own_method demo_codec demo_converter) [] None demo_world)"]
        demo_run
  by simp

subsection \<open>The file system\<close>

lemma find_child_Some: "find_child d cs = Some c \<Longrightarrow> c \<in> set cs \<and> node_name c = d"
  by (induction cs) (auto split: if_splits)

lemma replace_child_same: "find_child d cs = Some c \<Longrightarrow> replace_child d c cs = cs"
  by (induction cs) (auto split: if_splits)

lemma find_child_replace:
  "find_child d cs = Some x \<Longrightarrow> node_name x' = d \<Longrightarrow> find_child d (replace_child d x' cs) = Some x'"
  by (induction cs) (auto split: if_splits)

lemma find_child_append_new:
  "find_child d cs = None \<Longrightarrow> node_name x = d \<Longrightarrow> find_child d (cs @ [x]) = Some x"
  by (induction cs) (auto split: if_splits)

lemma resolve_Cons_Dir:
  "resolve t (d # ds) = Some x \<Longrightarrow>
     \<exists>n k cs c. t = Dir n k cs \<and> find_child d cs = Some c \<and> resolve c ds = Some x"
  by (cases t) (auto split: option.splits)

lemma mkdir_existing:
  "resolve t (p @ q) = Some x \<Longrightarrow> q \<noteq> [] \<Longrightarrow> mkdir_p p t = Inr t"
proof (induction p arbitrary: t)
  case Nil
  then obtain d ds where "q = d # ds" by (cases q) auto
  with Nil show ?case by (auto dest!: resolve_Cons_Dir)
next
  case (Cons d ds)
  from Cons.prems(1) obtain n k cs c where
    t: "t = Dir n k cs" and fc: "find_child d cs = Some c" and r: "resolve c (ds @ q) = Some x"
    by (auto dest!: resolve_Cons_Dir)
  from Cons.IH [OF r Cons.prems(2)] have "mkdir_p ds c = Inr c" .
  with t fc show ?case by (simp add: replace_child_same)
qed

lemma write_file_name: "write_file p c t = Inr t' \<Longrightarrow> node_name t' = node_name t"
  by (cases p; cases t) (auto split: option.splits sum.splits if_splits)

lemma write_file_resolve:
  "write_file p c t = Inr t' \<Longrightarrow> \<exists>n. resolve t' p = Some (File n c)"
proof (induction p arbitrary: t t')
  case Nil
  then show ?case by (cases t) auto
next
  case (Cons d ds)
  from Cons.prems obtain n k cs where t: "t = Dir n k cs" by (cases t) auto
  show ?case
  proof (cases "find_child d cs")
    case None
    with Cons.prems t have "ds = []" and "t' = Dir n k (cs @ [File d c])"
      by (auto split: if_splits)
    with None show ?thesis by (simp add: find_child_append_new)
  next
    case (Some x)
    with Cons.prems t obtain x' where w: "write_file ds c x = Inr x'"
      and t': "t' = Dir n k (replace_child d x' cs)"
      by (auto split: sum.splits)
    from write_file_name [OF w] find_child_Some [OF Some] have "node_name x' = d" by simp
    with Some have "find_child d (replace_child d x' cs) = Some x'"
      by (rule find_child_replace)
    with Cons.IH [OF w] t' show ?thesis by simp
  qed
qed

lemma path_exists_True_iff:
  "path_exists t p = Inr True \<longleftrightarrow>
     (\<exists>x. resolve t p = Some x \<and> (\<forall>n. x \<noteq> Unreadable n) \<and> (\<forall>n. x \<noteq> Dangling n))"
  by (auto simp: path_exists_def split: option.splits node.splits)

lemma output_location_existing:
  assumes "path_exists (fs w) (output_path_of src outf) = Inr True"
  shows "output_location src outf w =
     (Inr (output_path_of src outf),
      w\<lparr>events := events w @ (case outf of Some folder \<Rightarrow> [EvMkdir folder] | None \<Rightarrow> [])\<rparr>)"
proof (cases outf)
  case None
  then show ?thesis by (simp add: output_location_def output_path_of_def)
next
  case (Some folder)
  from assms Some obtain x where "resolve (fs w) (folder @ [stem src @ ''.jpg'']) = Some x"
    by (auto simp: path_exists_True_iff output_path_of_def)
  then have "mkdir_p folder (fs w) = Inr (fs w)"
    by (rule mkdir_existing) simp
  with Some show ?thesis
    by (simp add: output_location_def output_path_of_def Let_def emit_def)
qed

lemma convert_single_file_skip:
  assumes "path_exists (fs w) (output_path_of src outf) = Inr True"
  shows "convert_single_file cd cv src outf w =
           (True, w\<lparr>events := events w @ skip_events src outf\<rparr>)"
  using assms output_location_existing [OF assms]
  by (simp add: convert_single_file_def convert_body_def Let_def emit_def skip_events_def)

lemma fs_verify: "fs (snd (verify_metadata_preservation a b w)) = fs w"
  by (simp add: verify_metadata_preservation_def Let_def split: sum.splits)

lemma events_verify:
  "\<exists>new. events (snd (verify_metadata_preservation a b w)) = events w @ new \<and>
         filter completed_save new = []"
  by (auto simp: verify_metadata_preservation_def Let_def split: sum.splits)

lemma save_ok:
  "save cd img p kw w = (Inr u, w') \<Longrightarrow>
     path_exists (fs w') p = Inr True \<and> events w' = events w @ [EvSave p kw True]"
  by (auto simp: save_def path_exists_def emit_def split: sum.splits dest!: write_file_resolve)

lemma save_failed:
  "save cd img p kw w = (Inl e, w') \<Longrightarrow> fs w' = fs w \<and> events w' = events w @ [EvSave p kw False]"
  by (auto simp: save_def emit_def split: sum.splits)

lemma output_location_events:
  "output_location src outf w = (r, w1) \<Longrightarrow>
     (\<exists>new. events w1 = events w @ new \<and> filter completed_save new = []) \<and>
     (\<forall>out. r = Inr out \<longrightarrow> out = output_path_of src outf)"
  by (cases outf)
     (auto simp: output_location_def output_path_of_def Let_def emit_def split: sum.splits)

text \<open>What one call adds to the trace and leaves in the file system.\<close>

lemma convert_body_effect:
  assumes "convert_body cd cv src outf w = (r, w')"
  shows "(\<exists>new. events w' = events w @ new \<and> length (filter completed_save new) \<le> 1 \<and>
            ((\<exists>e. r = Inl e) \<longrightarrow> filter completed_save new = [])) \<and>
         r \<noteq> Inr False \<and>
         (r = Inr True \<longrightarrow> path_exists (fs w') (output_path_of src outf) = Inr True)"
proof -
  obtain r1 w1 where ol: "output_location src outf w = (r1, w1)"
    by (cases "output_location src outf w")
  from output_location_events [OF ol] obtain new1 where
    ev1: "events w1 = events w @ new1" "filter completed_save new1 = []"
    and out: "\<And>out. r1 = Inr out \<Longrightarrow> out = output_path_of src outf"
    by blast
  show ?thesis
  proof (cases r1)
    case (Inl e)
    with assms ol ev1 show ?thesis by (auto simp: convert_body_def)
  next
    case (Inr out')
    with out have r1: "r1 = Inr (output_path_of src outf)" by simp
    let ?out = "output_path_of src outf"
    let ?w2 = "emit (EvStat ?out) w1"
    show ?thesis
    proof (cases "path_exists (fs w1) ?out")
      case (Inl e)
      with assms ol r1 ev1 show ?thesis by (auto simp: convert_body_def Let_def)
    next
      case (Inr present)
      show ?thesis
      proof (cases present)
        case True
        with Inr assms ol r1 ev1 show ?thesis by (auto simp: convert_body_def Let_def)
      next
        case False
        let ?w3 = "emit (EvOpen src) ?w2"
        show ?thesis
        proof (cases "open_image (fs w1) src")
          case (Inl e)
          with False Inr assms ol r1 ev1 show ?thesis by (auto simp: convert_body_def Let_def)
        next
          case opened: (Inr opened)
          show ?thesis
          proof (cases "ensure_rgb cd opened")
            case (Inl e)
            with opened False Inr assms ol r1 ev1 show ?thesis
              by (auto simp: convert_body_def Let_def)
          next
            case img: (Inr img)
            let ?kw = "save_kwargs cd (quality cv) (preserve_metadata img)"
            obtain r4 w4 where sv: "save cd img ?out ?kw ?w3 = (r4, w4)"
              by (cases "save cd img ?out ?kw ?w3")
            show ?thesis
            proof (cases r4)
              case (Inl e)
              with sv have "events w4 = events ?w3 @ [EvSave ?out ?kw False]"
                by (auto dest: save_failed)
              with Inl sv img opened False Inr assms ol r1 ev1 show ?thesis
                by (auto simp: convert_body_def Let_def)
            next
              case saved: (Inr u)
              with sv have s4: "path_exists (fs w4) ?out = Inr True"
                "events w4 = events ?w3 @ [EvSave ?out ?kw True]"
                by (auto dest: save_ok)
              obtain newv where
                v: "events (snd (verify_metadata_preservation src ?out w4)) = events w4 @ newv"
                   "filter completed_save newv = []"
                using events_verify by blast
              from saved sv img opened False Inr assms ol r1
              have res: "r = Inr True"
                "w' = (if verbose cv then snd (verify_metadata_preservation src ?out w4) else w4)"
                by (auto simp: convert_body_def Let_def)
              show ?thesis
              proof (cases "verbose cv")
                case True
                with res s4 v ev1 show ?thesis by (auto simp: fs_verify)
              next
                case False
                with res s4 ev1 show ?thesis by auto
              qed
            qed
          qed
        qed
      qed
    qed
  qed
qed

lemma convert_single_file_effect:
  assumes "convert_single_file cd cv src outf w = (b, w')"
  shows "(\<exists>new. events w' = events w @ new \<and> length (filter completed_save new) \<le> 1 \<and>
            (\<not> b \<longrightarrow> filter completed_save new = [])) \<and>
         (b \<longrightarrow> path_exists (fs w') (output_path_of src outf) = Inr True)"
proof -
  obtain r where body: "convert_body cd cv src outf w = (r, w')"
    and b: "b = (r = Inr True)"
    using assms convert_body_effect [of cd cv src outf w]
    by (cases "convert_body cd cv src outf w")
       (auto simp: convert_single_file_def split: sum.splits)
  from convert_body_effect [OF body] b show ?thesis
    by (cases r) auto
qed

subsection \<open>The parameters of the encoder\<close>

lemma map_of_add_other_info:
  "k \<in> {''exif'', ''icc_profile'', ''xmp''} \<Longrightarrow> map_of (add_other_info items kw) k = map_of kw k"
  unfolding add_other_info_def
proof (induction items arbitrary: kw)
  case Nil
  then show ?case by simp
next
  case (Cons a items)
  obtain k' v' where a: "a = (k', v')" by (cases a)
  show ?case
    using Cons.prems Cons.IH [OF Cons.prems] a
    by (auto simp: AList.update_conv')
qed





lemma save_kwargs_xmp:
  "map_of (save_kwargs cd q md) ''xmp'' = None"
  by (auto simp: save_kwargs_def Let_def map_of_add_other_info AList.update_conv'
      split: option.splits)

subsection \<open>Single-file conversion\<close>

text \<open>
  C7. If the output path already exists, \<^verbatim>\<open>convert_single_file\<close> returns true, leaves
  the file system as it is and adds to the trace only its \<^verbatim>\<open>mkdir\<close> (when an output
  folder is given) and its \<^verbatim>\<open>exists\<close> query: no \<^verbatim>\<open>Image.open\<close>, no \<^verbatim>\<open>img.save\<close>. Hence
  a second call after a call that returned true is such a skip, and two calls in a row
  on the same source and output folder complete at most one encode.
\<close>

theorem convert_single_file_idempotent:
  "(path_exists (fs w) (output_path_of src outf) = Inr True \<longrightarrow>
      convert_single_file cd cv src outf w =
        (True, w\<lparr>events := events w @ skip_events src outf\<rparr>)) \<and>
   filter decode_or_encode (skip_events src outf) = [] \<and>
   (fst (convert_single_file cd cv src outf w) \<longrightarrow>
      convert_single_file cd cv src outf (snd (convert_single_file cd cv src outf w)) =
        (True, (snd (convert_single_file cd cv src outf w))
                 \<lparr>events := events (snd (convert_single_file cd cv src outf w))
                              @ skip_events src outf\<rparr>)) \<and>
   length (filter completed_save
      (events (snd (convert_single_file cd cv src outf
                      (snd (convert_single_file cd cv src outf w))))))
     \<le> length (filter completed_save (events w)) + 1"
proof (intro conjI impI)
  assume "path_exists (fs w) (output_path_of src outf) = Inr True"
  then show "convert_single_file cd cv src outf w =
        (True, w\<lparr>events := events w @ skip_events src outf\<rparr>)"
    by (rule convert_single_file_skip)
next
  show "filter decode_or_encode (skip_events src outf) = []"
    by (cases outf) (simp_all add: skip_events_def)
next
  obtain b1 w1 where c1: "convert_single_file cd cv src outf w = (b1, w1)"
    by (cases "convert_single_file cd cv src outf w")
  obtain b2 w2 where c2: "convert_single_file cd cv src outf w1 = (b2, w2)"
    by (cases "convert_single_file cd cv src outf w1")
  from convert_single_file_effect [OF c1] obtain n1 where
    e1: "events w1 = events w @ n1" "length (filter completed_save n1) \<le> 1"
        "\<not> b1 \<Longrightarrow> filter completed_save n1 = []"
    and x1: "b1 \<Longrightarrow> path_exists (fs w1) (output_path_of src outf) = Inr True"
    by blast
  from convert_single_file_effect [OF c2] obtain n2 where
    e2: "events w2 = events w1 @ n2" "length (filter completed_save n2) \<le> 1"
    by blast
  {
    assume "fst (convert_single_file cd cv src outf w)"
    with c1 have b1 by simp
    from convert_single_file_skip [OF x1 [OF this]] c1
    show "convert_single_file cd cv src outf (snd (convert_single_file cd cv src outf w)) =
        (True, (snd (convert_single_file cd cv src outf w))
                 \<lparr>events := events (snd (convert_single_file cd cv src outf w))
                              @ skip_events src outf\<rparr>)"
      by simp
  }
  have "length (filter completed_save (events w2)) \<le> length (filter completed_save (events w)) + 1"
  proof (cases b1)
    case True
    from convert_single_file_skip [OF x1 [OF True], of cd cv] c2
    have "events w2 = events w1 @ skip_events src outf" by auto
    moreover have "filter completed_save (skip_events src outf) = []"
      by (cases outf) (simp_all add: skip_events_def)
    ultimately show ?thesis using e1 by simp
  next
    case False
    with e1 e2 show ?thesis by simp
  qed
  with c1 c2 show "length (filter completed_save
      (events (snd (convert_single_file cd cv src outf
                      (snd (convert_single_file cd cv src outf w))))))
     \<le> length (filter completed_save (events w)) + 1"
    by simp
qed

lemma locked_skip_events: "skip_events [''f.heic''] None = [EvStat [''f.jpg'']]"
  by code_simp

text \<open>
  A call that finds its output present, and a conversion into an output folder run
  twice: the second call returns true, changes no file and the two calls complete one
  encode.
\<close>

theorem convert_single_file_idempotent_witness:
  "(path_exists (fs locked_world) (output_path_of [''f.heic''] None) = Inr True \<and>
    convert_single_file demo_codec demo_converter [''f.heic''] None locked_world =
      (True, locked_world\<lparr>events := events locked_world @ [EvStat [''f.jpg'']]\<rparr>)) \<and>
   (fst (convert_single_file demo_codec demo_converter [''sub'', ''e.heif''] (Some [''out'', ''sub'']) demo_world) \<and>
    fst (convert_single_file demo_codec demo_converter [''sub'', ''e.heif''] (Some [''out'', ''sub''])
          (snd (convert_single_file demo_codec demo_converter [''sub'', ''e.heif''] (Some [''out'', ''sub'']) demo_world))) \<and>
    fs (snd (convert_single_file demo_codec demo_converter [''sub'', ''e.heif''] (Some [''out'', ''sub''])
          (snd (convert_single_file demo_codec demo_converter [''sub'', ''e.heif''] (Some [''out'', ''sub'']) demo_world))))
      = fs (snd (convert_single_file demo_codec demo_converter [''sub'', ''e.heif''] (Some [''out'', ''sub'']) demo_world)) \<and>
    length (filter completed_save
      (events (snd (convert_single_file demo_codec demo_converter [''sub'', ''e.heif''] (Some [''out'', ''sub''])
          (snd (convert_single_file demo_codec demo_converter [''sub'', ''e.heif''] (Some [''out'', ''sub'']) demo_world))))))
      \<le> 1)"
proof (intro conjI)
  show pe: "path_exists (fs locked_world) (output_path_of [''f.heic''] None) = Inr True"
    by code_simp
  from convert_single_file_idempotent
         [where cd = demo_codec and cv = demo_converter and src = "[''f.heic'']" and outf = None
            and w = locked_world] pe
  show "convert_single_file demo_codec demo_converter [''f.heic''] None locked_world =
      (True, locked_world\<lparr>events := events locked_world @ [EvStat [''f.jpg'']]\<rparr>)"
    by (simp add: locked_skip_events)
next
  let ?once = "convert_single_file demo_codec demo_converter [''sub'', ''e.heif''] (Some [''out'', ''sub'']) demo_world"
  let ?twice = "convert_single_file demo_codec demo_converter [''sub'', ''e.heif''] (Some [''out'', ''sub'']) (snd ?once)"
  show first: "fst ?once"
    by code_simp
  note idem = convert_single_file_idempotent
         [where cd = demo_codec and cv = demo_converter and src = "[''sub'', ''e.heif'']"
            and outf = "Some [''out'', ''sub'']" and w = demo_world]
  from idem first have second: "?twice = (True, (snd ?once)\<lparr>events := events (snd ?once)
         @ skip_events [''sub'', ''e.heif''] (Some [''out'', ''sub''])\<rparr>)"
    by blast
  then show "fst ?twice" by simp
  from second show "fs (snd ?twice) = fs (snd ?once)" by simp
  have "events demo_world = []" by (simp add: demo_world_def)
  with idem show "length (filter completed_save (events (snd ?twice))) \<le> 1"
    by simp
qed

subsection \<open>The statistics of a batch\<close>

lemma stats_balance:
  assumes "convert_folder_with conv i out w = (Inr st, w')"
  shows "converted st + failed st = total st \<and> skipped st = 0"
proof -
  from convert_folder_with_cases [OF assms] show ?thesis
  proof
    assume "fst (discovery i w) = [] \<and> st = \<lparr>total = 0, converted = 0, failed = 0, skipped = 0\<rparr>"
    then show ?thesis by simp
  next
    let ?files = "fst (discovery i w)"
    assume some: "?files \<noteq> [] \<and>
          fst (convert_each conv i out ?files
             \<lparr>total = length ?files, converted = 0, failed = 0, skipped = 0\<rparr>
             (snd (discovery i w))) = st"
    then obtain w4 where run: "convert_each conv i out ?files
           \<lparr>total = length ?files, converted = 0, failed = 0, skipped = 0\<rparr>
           (snd (discovery i w)) = (st, w4)"
      by (metis prod.collapse)
    from convert_each_counts [OF run]
         filter_split_length [of "\<lambda>r. r = Inr True" "outcomes conv i out ?files (snd (discovery i w))"]
    show ?thesis by (simp add: length_outcomes)
  qed
qed

lemma own_method_skip:
  "path_exists (fs w) (output_path_of f folder) = Inr True \<Longrightarrow>
     own_method cd cv f folder w = (Inr True, w\<lparr>events := events w @ skip_events f folder\<rparr>)"
  by (simp add: own_method_def convert_single_file_skip)

text \<open>
  C9. Every statistics record a folder conversion returns has \<^verbatim>\<open>skipped = 0\<close>. A file
  whose output already exists is counted under \<^verbatim>\<open>converted\<close>: the loop over that one
  file, with or without an output folder, adds one to \<^verbatim>\<open>converted\<close> and nothing else.
\<close>

theorem skipped_counter_stays_zero:
  "(convert_folder_with conv i out w = (Inr st, w') \<longrightarrow> skipped st = 0) \<and>
   (path_exists (fs w) (output_path_of f None) = Inr True \<longrightarrow>
      fst (convert_each (own_method cd cv) i None [f] st0 w) = st0\<lparr>converted := converted st0 + 1\<rparr>) \<and>
   (relative_to f i = Inr rel \<and>
    path_exists (fs w) (output_path_of f (Some (outdir @ parent rel))) = Inr True \<longrightarrow>
      fst (convert_each (own_method cd cv) i (Some outdir) [f] st0 w) =
        st0\<lparr>converted := converted st0 + 1\<rparr>)"
  by (auto simp: stats_balance process_file_def own_method_skip)

text \<open>
  The run over the concrete world returns with \<^verbatim>\<open>skipped = 0\<close>; in the world where
  \<^verbatim>\<open>f.jpg\<close> is present the loop over \<^verbatim>\<open>f.heic\<close> counts it as converted, beside the source
  and through an output folder.
\<close>

theorem skipped_counter_stays_zero_witness:
  "skipped \<lparr>total = 3, converted = 2, failed = 1, skipped = 0\<rparr> = 0 \<and>
   path_exists (fs locked_world) (output_path_of [''f.heic''] None) = Inr True \<and>
   fst (convert_each (own_method demo_codec demo_converter) [] None [[''f.heic'']]
          \<lparr>total = 1, converted = 0, failed = 0, skipped = 0\<rparr> locked_world)
     = \<lparr>total = 1, converted = 1, failed = 0, skipped = 0\<rparr> \<and>
   relative_to [''f.heic''] [] = Inr [''f.heic''] \<and>
   fst (convert_each (own_method demo_codec demo_converter) [] (Some []) [[''f.heic'']]
          \<lparr>total = 1, converted = 0, failed = 0, skipped = 0\<rparr> locked_world)
     = \<lparr>total = 1, converted = 1, failed = 0, skipped = 0\<rparr>"
proof -
  have pe: "path_exists (fs locked_world) (output_path_of [''f.heic''] None) = Inr True"
    by code_simp
  have rel: "relative_to [''f.heic''] [] = Inr [''f.heic'']"
    by code_simp
  have pe': "path_exists (fs locked_world)
               (output_path_of [''f.heic''] (Some ([] @ parent [''f.heic'']))) = Inr True"
    by code_simp
  note inst = skipped_counter_stays_zero
      [where conv = "own_method demo_codec demo_converter" and i = "[]" and out = None
         and w = demo_world and st = "\<lparr>total = 3, converted = 2, failed = 1, skipped = 0\<rparr>"
         and w' = "snd (convert_folder_with (own_method demo_codec demo_converter) [] None demo_world)"]
  note inst2 = skipped_counter_stays_zero
      [where w = locked_world and f = "[''f.heic'']" and cd = demo_codec and cv = demo_converter
         and ?st0.0 = "\<lparr>total = 1, converted = 0, failed = 0, skipped = 0\<rparr>"
         and i = "[]" and rel = "[''f.heic'']" and outdir = "[]"]
  from inst demo_run have "skipped \<lparr>total = 3, converted = 2, failed = 1, skipped = 0\<rparr> = 0"
    by blast
  moreover from inst2 pe have "fst (convert_each (own_method demo_codec demo_converter) [] None [[''f.heic'']]
          \<lparr>total = 1, converted = 0, failed = 0, skipped = 0\<rparr> locked_world)
     = \<lparr>total = 1, converted = 1, failed = 0, skipped = 0\<rparr>"
    by simp
  moreover from inst2 rel pe' have "fst (convert_each (own_method demo_codec demo_converter) [] (Some []) [[''f.heic'']]
          \<lparr>total = 1, converted = 0, failed = 0, skipped = 0\<rparr> locked_world)
     = \<lparr>total = 1, converted = 1, failed = 0, skipped = 0\<rparr>"
    by simp
  ultimately show ?thesis using pe rel by blast
qed

subsection \<open>Metadata passed to the encoder\<close>

lemma save_kwargs_icc:
  "map_of (save_kwargs cd q md) ''icc_profile'' = icc_profile md"
  by (auto simp: save_kwargs_def Let_def map_of_add_other_info AList.update_conv'
      split: option.splits)

text \<open>
  C8 (the code departs from the claim). For an image whose \<^verbatim>\<open>info\<close> holds an XMP payload,
  \<^verbatim>\<open>preserve_metadata\<close> extracts it into the bundle, yet the parameters passed to
  \<^verbatim>\<open>img.save\<close> have no \<^verbatim>\<open>xmp\<close> entry; indeed no metadata bundle ever yields one, while the
  ICC profile of the bundle is always passed on.
\<close>

theorem xmp_not_passed_to_encoder:
  "xmp (preserve_metadata xmp_image) = Some (PBytes ''<x/>'') \<and>
   map_of (save_kwargs cd q (preserve_metadata xmp_image)) ''xmp'' = None \<and>
   map_of (save_kwargs cd q md) ''xmp'' = None \<and>
   map_of (save_kwargs cd q md) ''icc_profile'' = icc_profile md"
proof (intro conjI)
  show "xmp (preserve_metadata xmp_image) = Some (PBytes ''<x/>'')"
    by code_simp
qed (simp_all add: save_kwargs_xmp save_kwargs_icc)

subsection \<open>The command line\<close>

text \<open>
  C3, as the code has it. A quality outside [1, 100] given on the command line is
  rejected by \<^verbatim>\<open>main\<close> before the converter is constructed and before any file system
  call: the exit status is 1, the message is printed, the world and its trace are
  untouched. The constructor itself checks nothing: for every quality and every verbose
  flag it succeeds and stores exactly those values.
\<close>

theorem quality_checked_by_main_only:
  "(\<not> (1 \<le> arg_quality args \<and> arg_quality args \<le> 100) \<longrightarrow>
      main cd args w = (1, [QualityMessage], w)) \<and>
   HEICToJPGConverter q v = Inr \<lparr>quality = q, verbose = v\<rparr>"
  by (simp add: main_def HEICToJPGConverter_def)

theorem quality_checked_by_main_only_witness:
  "\<not> (1 \<le> arg_quality bad_quality_args \<and> arg_quality bad_quality_args \<le> 100) \<and>
   main demo_codec bad_quality_args demo_world = (1, [QualityMessage], demo_world) \<and>
   HEICToJPGConverter 85 True = Inr \<lparr>quality = 85, verbose = True\<rparr>"
  using quality_checked_by_main_only [of bad_quality_args demo_codec demo_world 85 True]
  by (simp add: bad_quality_args_def)

text \<open>
  The claim as stated fails at quality 0 through the library surface: the constructor
  returns a converter holding 0, and a conversion with it opens the source and saves the
  output with \<^verbatim>\<open>quality = 0\<close>.
\<close>

theorem library_quality_unchecked_counterexample:
  "\<not> (1 \<le> (0::int) \<and> (0::int) \<le> 100) \<and>
   HEICToJPGConverter 0 False = Inr \<lparr>quality = 0, verbose = False\<rparr> \<and>
   fst (convert_single_file demo_codec \<lparr>quality = 0, verbose = False\<rparr> [''b.heic''] None demo_world) \<and>
   events (snd (convert_single_file demo_codec \<lparr>quality = 0, verbose = False\<rparr> [''b.heic''] None demo_world)) =
     [EvStat [''b.jpg''], EvOpen [''b.heic''],
      EvSave [''b.jpg''] [(''format'', PStr ''JPEG''), (''quality'', PInt 0), (''optimize'', PBool True)] True]"
  by code_simp

lemma cli_run_balance:
  assumes "fst (cli_run cd args w) = Inr st"
  shows "converted st + failed st = total st"
proof -
  from assms have "convert_folder_with
      (own_method cd \<lparr>quality = arg_quality args, verbose = arg_verbose args\<rparr>)
      (arg_input_folder args) (arg_output args) w = (Inr st, snd (cli_run cd args w))"
    by (simp add: cli_run_def convert_folder_def prod_eq_iff)
  from stats_balance [OF this] show ?thesis by simp
qed

lemma main_code:
  "fst (main cd args w) =
     (if \<not> (1 \<le> arg_quality args \<and> arg_quality args \<le> 100) then 1
      else case fst (cli_run cd args w) of
             Inl e \<Rightarrow> 3
           | Inr st \<Rightarrow> if failed st = 0 then 0 else if 0 < converted st then 1 else 2)"
  by (auto simp: main_def cli_run_def HEICToJPGConverter_def split: prod.splits sum.splits)

lemma cli_run_missing:
  "path_exists (fs w) (arg_input_folder args) = Inr False \<Longrightarrow>
     fst (cli_run cd args w) = Inl (ValueError ''Input folder does not exist'')"
  by (simp add: cli_run_def convert_folder_def convert_folder_with_def Let_def)

lemma cli_run_not_dir:
  "path_exists (fs w) (arg_input_folder args) = Inr True \<Longrightarrow>
   is_dir (fs w) (arg_input_folder args) = Inr False \<Longrightarrow>
     fst (cli_run cd args w) = Inl (ValueError ''Input path is not a directory'')"
  by (simp add: cli_run_def convert_folder_def convert_folder_with_def Let_def)

lemma cli_run_nothing:
  assumes "path_exists (fs w) (arg_input_folder args) = Inr True"
    and "is_dir (fs w) (arg_input_folder args) = Inr True"
    and "fst (discovery (arg_input_folder args) w) = []"
  shows "fst (cli_run cd args w) = Inr \<lparr>total = 0, converted = 0, failed = 0, skipped = 0\<rparr>"
proof -
  obtain w3 where "discovery (arg_input_folder args) w = ([], w3)"
    using assms(3) by (cases "discovery (arg_input_folder args) w") simp
  with assms(1,2) show ?thesis
    by (simp add: cli_run_def convert_folder_def convert_folder_with_def Let_def discovery_def)
qed

text \<open>
  C4, as the code has it. The exit status is 0 exactly when the quality is valid and the
  run returns with no failure (also when no file was found); 1 exactly when the quality
  is out of range, or the run returns with at least one failure and at least one success;
  2 exactly when the quality is valid and the run returns with a positive total of which
  every conversion failed; 3 exactly when the quality is valid and the folder conversion
  raised, as it does for an input path that does not exist or is not a directory. A
  quality out of range is rejected before any conversion begins: the world is returned
  untouched. Its status is 1, the status of a partial failure.
\<close>

theorem main_exit_codes:
  "((fst (main cd args w) = 0) =
      ((1 \<le> arg_quality args \<and> arg_quality args \<le> 100) \<and>
       (\<exists>st. fst (cli_run cd args w) = Inr st \<and> failed st = 0))) \<and>
   ((fst (main cd args w) = 1) =
      (\<not> (1 \<le> arg_quality args \<and> arg_quality args \<le> 100) \<or>
       (\<exists>st. fst (cli_run cd args w) = Inr st \<and> 0 < failed st \<and> 0 < converted st))) \<and>
   ((fst (main cd args w) = 2) =
      ((1 \<le> arg_quality args \<and> arg_quality args \<le> 100) \<and>
       (\<exists>st. fst (cli_run cd args w) = Inr st \<and> 0 < total st \<and> failed st = total st))) \<and>
   ((fst (main cd args w) = 3) =
      ((1 \<le> arg_quality args \<and> arg_quality args \<le> 100) \<and>
       (\<exists>e. fst (cli_run cd args w) = Inl e))) \<and>
   ((1 \<le> arg_quality args \<and> arg_quality args \<le> 100) \<and>
    path_exists (fs w) (arg_input_folder args) = Inr False \<longrightarrow> fst (main cd args w) = 3) \<and>
   ((1 \<le> arg_quality args \<and> arg_quality args \<le> 100) \<and>
    path_exists (fs w) (arg_input_folder args) = Inr True \<and>
    is_dir (fs w) (arg_input_folder args) = Inr False \<longrightarrow> fst (main cd args w) = 3) \<and>
   ((1 \<le> arg_quality args \<and> arg_quality args \<le> 100) \<and>
    path_exists (fs w) (arg_input_folder args) = Inr True \<and>
    is_dir (fs w) (arg_input_folder args) = Inr True \<and>
    fst (discovery (arg_input_folder args) w) = [] \<longrightarrow> fst (main cd args w) = 0) \<and>
   (\<not> (1 \<le> arg_quality args \<and> arg_quality args \<le> 100) \<longrightarrow>
      main cd args w = (1, [QualityMessage], w))"
proof (intro conjI)
  show "(fst (main cd args w) = 0) =
      ((1 \<le> arg_quality args \<and> arg_quality args \<le> 100) \<and>
       (\<exists>st. fst (cli_run cd args w) = Inr st \<and> failed st = 0))"
    by (auto simp: main_code split: sum.splits)
  show "(fst (main cd args w) = 1) =
      (\<not> (1 \<le> arg_quality args \<and> arg_quality args \<le> 100) \<or>
       (\<exists>st. fst (cli_run cd args w) = Inr st \<and> 0 < failed st \<and> 0 < converted st))"
    by (auto simp: main_code split: sum.splits)
  show "(fst (main cd args w) = 2) =
      ((1 \<le> arg_quality args \<and> arg_quality args \<le> 100) \<and>
       (\<exists>st. fst (cli_run cd args w) = Inr st \<and> 0 < total st \<and> failed st = total st))"
    by (auto simp: main_code split: sum.splits dest: cli_run_balance)
  show "(fst (main cd args w) = 3) =
      ((1 \<le> arg_quality args \<and> arg_quality args \<le> 100) \<and>
       (\<exists>e. fst (cli_run cd args w) = Inl e))"
    by (auto simp: main_code split: sum.splits)
next
  show "\<not> (1 \<le> arg_quality args \<and> arg_quality args \<le> 100) \<longrightarrow>
      main cd args w = (1, [QualityMessage], w)"
    by (simp add: main_def)
qed (auto simp: main_code cli_run_missing cli_run_not_dir cli_run_nothing)

text \<open>
  One run for each status: a folder without images (0), a rejected quality (1), a run
  with two successes and one failure (1), a run in which every conversion fails (2), an
  input path that does not exist (3) and one that is a file (3).
\<close>

theorem main_exit_codes_witness:
  "fst (main demo_codec docs_args demo_world) = 0 \<and>
   main demo_codec bad_quality_args demo_world = (1, [QualityMessage], demo_world) \<and>
   fst (main demo_codec demo_args demo_world) = 1 \<and>
   fst (main broken_codec demo_args demo_world) = 2 \<and>
   fst (main demo_codec missing_args demo_world) = 3 \<and>
   fst (main demo_codec file_args demo_world) = 3"
proof (intro conjI)
  have q: "1 \<le> arg_quality docs_args \<and> arg_quality docs_args \<le> 100"
    by (simp add: docs_args_def)
  have pe: "path_exists (fs demo_world) (arg_input_folder docs_args) = Inr True"
    by code_simp
  have dir: "is_dir (fs demo_world) (arg_input_folder docs_args) = Inr True"
    by code_simp
  have none: "fst (discovery (arg_input_folder docs_args) demo_world) = []"
    by code_simp
  from main_exit_codes [of demo_codec docs_args demo_world] q pe dir none
  show "fst (main demo_codec docs_args demo_world) = 0"
    by blast
next
  have "\<not> (1 \<le> arg_quality bad_quality_args \<and> arg_quality bad_quality_args \<le> 100)"
    by (simp add: bad_quality_args_def)
  with main_exit_codes [of demo_codec bad_quality_args demo_world]
  show "main demo_codec bad_quality_args demo_world = (1, [QualityMessage], demo_world)"
    by blast
next
  have run: "fst (cli_run demo_codec demo_args demo_world) =
               Inr \<lparr>total = 3, converted = 2, failed = 1, skipped = 0\<rparr>"
    by code_simp
  have "0 < failed \<lparr>total = 3, converted = 2, failed = 1, skipped = 0\<rparr> \<and>
        0 < converted \<lparr>total = 3, converted = 2, failed = 1, skipped = 0\<rparr>"
    by simp
  with main_exit_codes [of demo_codec demo_args demo_world] run
  show "fst (main demo_codec demo_args demo_world) = 1"
    by blast
next
  have q: "1 \<le> arg_quality demo_args \<and> arg_quality demo_args \<le> 100"
    by (simp add: demo_args_def)
  have run: "fst (cli_run broken_codec demo_args demo_world) =
               Inr \<lparr>total = 3, converted = 0, failed = 3, skipped = 0\<rparr>"
    by code_simp
  have "0 < total \<lparr>total = 3, converted = 0, failed = 3, skipped = 0\<rparr> \<and>
        failed \<lparr>total = 3, converted = 0, failed = 3, skipped = 0\<rparr>
          = total \<lparr>total = 3, converted = 0, failed = 3, skipped = 0\<rparr>"
    by simp
  with main_exit_codes [of broken_codec demo_args demo_world] q run
  show "fst (main broken_codec demo_args demo_world) = 2"
    by blast
next
  have q: "1 \<le> arg_quality missing_args \<and> arg_quality missing_args \<le> 100"
    by (simp add: missing_args_def)
  have pe: "path_exists (fs demo_world) (arg_input_folder missing_args) = Inr False"
    by code_simp
  from main_exit_codes [of demo_codec missing_args demo_world] q pe
  show "fst (main demo_codec missing_args demo_world) = 3"
    by blast
next
  have q: "1 \<le> arg_quality file_args \<and> arg_quality file_args \<le> 100"
    by (simp add: file_args_def)
  have pe: "path_exists (fs demo_world) (arg_input_folder file_args) = Inr True"
    by code_simp
  have dir: "is_dir (fs demo_world) (arg_input_folder file_args) = Inr False"
    by code_simp
  from main_exit_codes [of demo_codec file_args demo_world] q pe dir
  show "fst (main demo_codec file_args demo_world) = 3"
    by blast
qed

text \<open>
  The claim as stated fails: the status of a rejected quality is 1, and 1 is also the
  status of the run over the concrete world, which has two successes and one failure.
\<close>

theorem quality_exit_code_not_distinct_counterexample:
  "\<not> (1 \<le> arg_quality bad_quality_args \<and> arg_quality bad_quality_args \<le> 100) \<and>
   fst (main demo_codec bad_quality_args demo_world) = 1 \<and>
   fst (cli_run demo_codec demo_args demo_world) =
     Inr \<lparr>total = 3, converted = 2, failed = 1, skipped = 0\<rparr> \<and>
   fst (main demo_codec demo_args demo_world) = 1"
  by code_simp

subsection \<open>The EXIF payload\<close>











subsection \<open>Errors in single-file conversion\<close>

text \<open>
  C6, as the code has it. \<^verbatim>\<open>convert_single_file\<close> never propagates an exception: it
  returns a boolean, which is true exactly when the body of its \<^verbatim>\<open>try\<close> ran to one of its
  two \<^verbatim>\<open>return True\<close>. It is false whenever an exception leaves one of these stages: the
  creation of the output directory, the \<^verbatim>\<open>exists\<close> query, the decode (\<^verbatim>\<open>Image.open\<close>, the
  conversion to RGB), and \<^verbatim>\<open>img.save\<close> (encode and write). An error raised in metadata
  handling does not give false: whether the \<^verbatim>\<open>info\<close> probe of \<^verbatim>\<open>preserve_metadata\<close>
  raises, or \<^verbatim>\<open>piexif.dump\<close> raises on the structured or on the legacy view, the handler
  on the spot absorbs it and the call returns true when \<^verbatim>\<open>img.save\<close> returns.
\<close>

theorem convert_single_file_never_raises:
  "fst (convert_single_file cd cv src outf w) = (fst (convert_body cd cv src outf w) = Inr True) \<and>
   (outf = Some folder \<and> mkdir_p folder (fs w) = Inl e1 \<longrightarrow>
      \<not> fst (convert_single_file cd cv src outf w)) \<and>
   (output_location src outf w = (Inr out, w1) \<longrightarrow>
      (path_exists (fs w1) out = Inl e2 \<longrightarrow> \<not> fst (convert_single_file cd cv src outf w)) \<and>
      (path_exists (fs w1) out = Inr False \<longrightarrow>
         (open_image (fs w1) src = Inl e3 \<longrightarrow> \<not> fst (convert_single_file cd cv src outf w)) \<and>
         (open_image (fs w1) src = Inr opened \<longrightarrow>
            (ensure_rgb cd opened = Inl e4 \<longrightarrow> \<not> fst (convert_single_file cd cv src outf w)) \<and>
            (ensure_rgb cd opened = Inr img \<longrightarrow>
               (fst (save cd img out (save_kwargs cd (quality cv) (preserve_metadata img))
                       (emit (EvOpen src) (emit (EvStat out) w1))) = Inl e5 \<longrightarrow>
                  \<not> fst (convert_single_file cd cv src outf w)) \<and>
               (fst (save cd img out (save_kwargs cd (quality cv) (preserve_metadata img))
                       (emit (EvOpen src) (emit (EvStat out) w1))) = Inr () \<longrightarrow>
                  fst (convert_single_file cd cv src outf w)))))) \<and>
   (output_location src outf w = (Inr out, w1) \<and>
    path_exists (fs w1) out = Inr False \<and>
    open_image (fs w1) src = Inr opened \<and>
    ensure_rgb cd opened = Inr img \<and>
    (fst (info_probe img no_metadata) = Some e6 \<or>
     (exif_dict (preserve_metadata img) = Some d \<and> dump cd (exif_ifd_of d) = Inl e6) \<or>
     (legacy_exif (preserve_metadata img) = Some d \<and> dump cd d = Inl e6)) \<and>
    fst (save cd img out (save_kwargs cd (quality cv) (preserve_metadata img))
           (emit (EvOpen src) (emit (EvStat out) w1))) = Inr () \<longrightarrow>
      fst (convert_single_file cd cv src outf w))"
proof (intro conjI impI)
  show "fst (convert_single_file cd cv src outf w) = (fst (convert_body cd cv src outf w) = Inr True)"
    using convert_body_effect [of cd cv src outf w]
    by (cases "convert_body cd cv src outf w")
       (auto simp: convert_single_file_def split: sum.splits)
qed (auto simp: convert_single_file_def convert_body_def output_location_def Let_def
          split: prod.splits sum.splits)


text \<open>
  The claim as stated fails for metadata handling. For an image with
  \<^verbatim>\<open>info['exif'] = None\<close>, formatting the length of that entry raises \<^verbatim>\<open>TypeError\<close>
  inside \<^verbatim>\<open>preserve_metadata\<close>, and the conversion returns true. With a \<^verbatim>\<open>piexif.dump\<close>
  that raises, as it does on a value it cannot encode, an image with a structured EXIF
  dictionary is converted all the same, and the call returns true.
\<close>

theorem metadata_error_yet_true_counterexample:
  "fst (info_probe bare_heif_image no_metadata) = Some TypeError \<and>
   fst (convert_single_file demo_codec demo_converter [''h.heic''] None locked_world) \<and>
   exif_dict (preserve_metadata dict_image) =
     Some [(KInt 271, PStr ''maker''), (KInt 34665, PInt 90)] \<and>
   dump strict_codec (exif_ifd_of [(KInt 271, PStr ''maker''), (KInt 34665, PInt 90)]) =
     Inl (CodecError ''dump'') \<and>
   fst (convert_single_file strict_codec demo_converter [''d.heic''] None locked_world)"
  by code_simp

text \<open>
  One concrete call for each stage that raises (a file in the way of the output
  directory, an output path that cannot be inspected, a file Pillow cannot identify, a
  failing RGB conversion, a failing encoder), one call in which every stage returns, and
  one in which the metadata probe raises and the call returns true.
\<close>

theorem convert_single_file_never_raises_witness:
  "(mkdir_p [''b.heic''] (fs demo_world) = Inl FileExistsError \<and>
     \<not> fst (convert_single_file demo_codec demo_converter [''b.heic''] (Some [''b.heic'']) demo_world)) \<and>
   (path_exists (fs locked_world) [''b.jpg''] = Inl PermissionError \<and>
     \<not> fst (convert_single_file demo_codec demo_converter [''b.heic''] None locked_world)) \<and>
   (open_image (fs demo_world) [''sub'', ''c.HEIF''] = Inl UnidentifiedImageError \<and>
     \<not> fst (convert_single_file demo_codec demo_converter [''sub'', ''c.HEIF''] None demo_world)) \<and>
   (ensure_rgb broken_codec tagged_image = Inl (CodecError ''convert'') \<and>
     \<not> fst (convert_single_file broken_codec demo_converter [''sub'', ''e.heif''] None demo_world)) \<and>
   (encode broken_codec plain_image
       (save_kwargs broken_codec (quality demo_converter) (preserve_metadata plain_image))
       = Inl (CodecError ''encode'') \<and>
     \<not> fst (convert_single_file broken_codec demo_converter [''b.heic''] None demo_world)) \<and>
   fst (convert_single_file demo_codec demo_converter [''b.heic''] None demo_world) \<and>
   (fst (info_probe bare_heif_image no_metadata) = Some TypeError \<and>
     fst (convert_single_file demo_codec demo_converter [''h.heic''] None locked_world))"
proof (intro conjI)
  show m: "mkdir_p [''b.heic''] (fs demo_world) = Inl FileExistsError"
    by code_simp
  from convert_single_file_never_raises
         [where cd = demo_codec and cv = demo_converter and src = "[''b.heic'']"
            and outf = "Some [''b.heic'']" and w = demo_world and folder = "[''b.heic'']"
            and ?e1.0 = FileExistsError] m
  show "\<not> fst (convert_single_file demo_codec demo_converter [''b.heic''] (Some [''b.heic'']) demo_world)"
    by blast
next
  have ol: "output_location [''b.heic''] None locked_world = (Inr [''b.jpg''], locked_world)"
    by code_simp
  show pe: "path_exists (fs locked_world) [''b.jpg''] = Inl PermissionError"
    by code_simp
  from convert_single_file_never_raises
         [where cd = demo_codec and cv = demo_converter and src = "[''b.heic'']"
            and outf = None and w = locked_world and out = "[''b.jpg'']" and ?w1.0 = locked_world
            and ?e2.0 = PermissionError] ol pe
  show "\<not> fst (convert_single_file demo_codec demo_converter [''b.heic''] None locked_world)"
    by blast
next
  have ol: "output_location [''sub'', ''c.HEIF''] None demo_world = (Inr [''sub'', ''c.jpg''], demo_world)"
    by code_simp
  have pe: "path_exists (fs demo_world) [''sub'', ''c.jpg''] = Inr False"
    by code_simp
  show op: "open_image (fs demo_world) [''sub'', ''c.HEIF''] = Inl UnidentifiedImageError"
    by code_simp
  from convert_single_file_never_raises
         [where cd = demo_codec and cv = demo_converter and src = "[''sub'', ''c.HEIF'']"
            and outf = None and w = demo_world and out = "[''sub'', ''c.jpg'']" and ?w1.0 = demo_world
            and ?e3.0 = UnidentifiedImageError] ol pe op
  show "\<not> fst (convert_single_file demo_codec demo_converter [''sub'', ''c.HEIF''] None demo_world)"
    by blast
next
  have ol: "output_location [''sub'', ''e.heif''] None demo_world = (Inr [''sub'', ''e.jpg''], demo_world)"
    by code_simp
  have pe: "path_exists (fs demo_world) [''sub'', ''e.jpg''] = Inr False"
    by code_simp
  have op: "open_image (fs demo_world) [''sub'', ''e.heif''] = Inr tagged_image"
    by code_simp
  show rgb: "ensure_rgb broken_codec tagged_image = Inl (CodecError ''convert'')"
    by code_simp
  from convert_single_file_never_raises
         [where cd = broken_codec and cv = demo_converter and src = "[''sub'', ''e.heif'']"
            and outf = None and w = demo_world and out = "[''sub'', ''e.jpg'']" and ?w1.0 = demo_world
            and opened = tagged_image and ?e4.0 = "CodecError ''convert''"] ol pe op rgb
  show "\<not> fst (convert_single_file broken_codec demo_converter [''sub'', ''e.heif''] None demo_world)"
    by blast
next
  have ol: "output_location [''b.heic''] None demo_world = (Inr [''b.jpg''], demo_world)"
    by code_simp
  have pe: "path_exists (fs demo_world) [''b.jpg''] = Inr False"
    by code_simp
  have op: "open_image (fs demo_world) [''b.heic''] = Inr plain_image"
    by code_simp
  have rgb: "ensure_rgb broken_codec plain_image = Inr plain_image"
    by code_simp
  show enc: "encode broken_codec plain_image
       (save_kwargs broken_codec (quality demo_converter) (preserve_metadata plain_image))
       = Inl (CodecError ''encode'')"
    by (simp add: broken_codec_def)
  then have sv: "fst (save broken_codec plain_image [''b.jpg'']
       (save_kwargs broken_codec (quality demo_converter) (preserve_metadata plain_image))
       (emit (EvOpen [''b.heic'']) (emit (EvStat [''b.jpg'']) demo_world))) = Inl (CodecError ''encode'')"
    by (simp add: save_def)
  from convert_single_file_never_raises
         [where cd = broken_codec and cv = demo_converter and src = "[''b.heic'']"
            and outf = None and w = demo_world and out = "[''b.jpg'']" and ?w1.0 = demo_world
            and opened = plain_image and img = plain_image and ?e5.0 = "CodecError ''encode''"]
       ol pe op rgb sv
  show "\<not> fst (convert_single_file broken_codec demo_converter [''b.heic''] None demo_world)"
    by blast
next
  have ol: "output_location [''b.heic''] None demo_world = (Inr [''b.jpg''], demo_world)"
    by code_simp
  have pe: "path_exists (fs demo_world) [''b.jpg''] = Inr False"
    by code_simp
  have op: "open_image (fs demo_world) [''b.heic''] = Inr plain_image"
    by code_simp
  have rgb: "ensure_rgb demo_codec plain_image = Inr plain_image"
    by code_simp
  have sv: "fst (save demo_codec plain_image [''b.jpg'']
       (save_kwargs demo_codec (quality demo_converter) (preserve_metadata plain_image))
       (emit (EvOpen [''b.heic'']) (emit (EvStat [''b.jpg'']) demo_world))) = Inr ()"
    by code_simp
  from convert_single_file_never_raises
         [where cd = demo_codec and cv = demo_converter and src = "[''b.heic'']"
            and outf = None and w = demo_world and out = "[''b.jpg'']" and ?w1.0 = demo_world
            and opened = plain_image and img = plain_image]
       ol pe op rgb sv
  show "fst (convert_single_file demo_codec demo_converter [''b.heic''] None demo_world)"
    by blast
next
  have ol: "output_location [''h.heic''] None locked_world = (Inr [''h.jpg''], locked_world)"
    by code_simp
  have pe: "path_exists (fs locked_world) [''h.jpg''] = Inr False"
    by code_simp
  have op: "open_image (fs locked_world) [''h.heic''] = Inr bare_heif_image"
    by code_simp
  have rgb: "ensure_rgb demo_codec bare_heif_image = Inr bare_heif_image"
    by code_simp
  show err: "fst (info_probe bare_heif_image no_metadata) = Some TypeError"
    by code_simp
  have sv: "fst (save demo_codec bare_heif_image [''h.jpg'']
       (save_kwargs demo_codec (quality demo_converter) (preserve_metadata bare_heif_image))
       (emit (EvOpen [''h.heic'']) (emit (EvStat [''h.jpg'']) locked_world))) = Inr ()"
    by code_simp
  from convert_single_file_never_raises
         [where cd = demo_codec and cv = demo_converter and src = "[''h.heic'']"
            and outf = None and w = locked_world and out = "[''h.jpg'']" and ?w1.0 = locked_world
            and opened = bare_heif_image and img = bare_heif_image and ?e6.0 = TypeError]
       ol pe op rgb err sv
  show "fst (convert_single_file demo_codec demo_converter [''h.heic''] None locked_world)"
    by blast
qed

subsection \<open>Discovery\<close>

lemma walkable_child:
  "walkable_all cs \<Longrightarrow> find_child d cs = Some c \<Longrightarrow> walkable c"
  by (induction cs) (auto split: if_splits)

lemma walkable_resolve:
  "walkable t \<Longrightarrow> resolve t q = Some x \<Longrightarrow> walkable x"
proof (induction q arbitrary: t)
  case Nil
  then show ?case by simp
next
  case (Cons d ds)
  from Cons.prems(2) obtain n k cs c where
    t: "t = Dir n k cs" and fc: "find_child d cs = Some c" and r: "resolve c ds = Some x"
    by (auto dest!: resolve_Cons_Dir)
  from Cons.prems(1) t fc have "walkable c" by (auto dest: walkable_child)
  from Cons.IH [OF this r] show ?case .
qed

lemma walkable_is_file:
  "walkable t \<Longrightarrow> \<exists>b. is_file t q = Inr b"
  by (auto simp: is_file_def split: option.splits node.splits dest: walkable_resolve)

lemma is_file_kind:
  "q \<noteq> [] \<Longrightarrow> is_file (Dir n k cs) q = is_file (Dir n Listable cs) q"
  by (cases q) (simp_all add: is_file_def)

lemma resolve_append:
  "resolve t (p @ q) = (case resolve t p of None \<Rightarrow> None | Some x \<Rightarrow> resolve x q)"
proof (induction p arbitrary: t)
  case Nil
  then show ?case by simp
next
  case (Cons d ds)
  then show ?case by (cases t) (auto split: option.splits)
qed

lemma is_file_below:
  "resolve t p = Some x \<Longrightarrow> is_file t (p @ q) = is_file x q"
  by (simp add: is_file_def resolve_append)

lemma suffix_below: "q \<noteq> [] \<Longrightarrow> suffix (p @ q) = suffix q"
  by (simp add: suffix_def path_name_def)

lemma descend_subset:
  "c \<in> set cs \<Longrightarrow> set (descend pre c) \<subseteq> set (descend_all pre cs)"
  by (induction cs) auto

text \<open>In a tree the walk covers in full, every path that resolves below a directory is yielded.\<close>

lemma walk_complete:
  "resolve (Dir n k cs) q = Some x \<Longrightarrow> q \<noteq> [] \<Longrightarrow> walkable_all cs \<Longrightarrow>
     pre @ q \<in> set (listing pre cs) \<union> set (descend_all pre cs)"
proof (induction q arbitrary: n k cs pre)
  case Nil
  then show ?case by simp
next
  case (Cons d ds)
  from Cons.prems(1) obtain c where fc: "find_child d cs = Some c" and r: "resolve c ds = Some x"
    by (auto split: option.splits)
  from find_child_Some [OF fc] have c: "c \<in> set cs" "node_name c = d" by simp_all
  from Cons.prems(3) fc have wc: "walkable c" by (rule walkable_child)
  show ?case
  proof (cases ds)
    case Nil
    with c show ?thesis by (force simp: listing_def)
  next
    case (Cons d' ds')
    with r obtain n' k' cs' where dir: "c = Dir n' k' cs'"
      by (auto dest!: resolve_Cons_Dir)
    with c wc have n': "n' = d" "k' = Listable" "walkable_all cs'" by simp_all
    from Cons.IH [of n' k' cs' "pre @ [d]"] r dir Cons n'
    have "(pre @ [d]) @ ds \<in> set (listing (pre @ [d]) cs') \<union> set (descend_all (pre @ [d]) cs')"
      by simp
    with dir n' have "pre @ d # ds \<in> set (descend pre c)" by simp
    with descend_subset [OF c(1)] show ?thesis by blast
  qed
qed

lemma walk_sound:
  "p \<in> set (descend pre t) \<Longrightarrow> \<exists>q. q \<noteq> [] \<and> p = pre @ q"
  "p \<in> set (descend_all pre cs) \<Longrightarrow> \<exists>q. q \<noteq> [] \<and> p = pre @ q"
proof (induction pre t and pre cs rule: descend_descend_all.induct)
  case (1 pre n k cs)
  then show ?case by (force simp: listing_def split: if_splits)
qed auto

lemma rglob_sound:
  "p \<in> set (rglob t folder) \<Longrightarrow> \<exists>q. q \<noteq> [] \<and> p = folder @ q"
  using walk_sound(2) [of p folder]
  by (auto simp: rglob_def listing_def split: option.splits node.splits if_splits)

lemma rglob_complete:
  "resolve t folder = Some (Dir n k cs) \<Longrightarrow> k \<noteq> Unlistable \<Longrightarrow> walkable_all cs \<Longrightarrow>
   resolve (Dir n k cs) q = Some x \<Longrightarrow> q \<noteq> [] \<Longrightarrow>
     folder @ q \<in> set (rglob t folder)"
  using walk_complete [of n k cs q x folder] by (simp add: rglob_def)

text \<open>
  The loop of \<^verbatim>\<open>find_heic_files\<close>: it goes through the entries up to the first one whose
  status query raises and keeps the regular files with a listed suffix.
\<close>

lemma collect_heic_prefix:
  "fst (collect_heic ps acc w) =
     acc @ filter (\<lambda>p. is_file (fs w) p = Inr True \<and> suffix p \<in> heic_extensions)
             (takeWhile (\<lambda>p. \<not> isl (is_file (fs w) p)) ps)"
proof (induction ps arbitrary: acc w)
  case Nil
  then show ?case by simp
next
  case (Cons p ps)
  show ?case
    using Cons.IH [of "acc @ [p]" "emit (EvStat p) w"] Cons.IH [of acc "emit (EvStat p) w"]
    by (cases "is_file (fs w) p") (auto simp: Let_def)
qed

text \<open>
  C1, as the code has it. Discovery returns, in the order of the recursive walk, the
  regular files whose suffix is exactly one of \<^verbatim>\<open>.heic\<close>, \<^verbatim>\<open>.heif\<close>, \<^verbatim>\<open>.HEIC\<close>, \<^verbatim>\<open>.HEIF\<close>
  among the entries the walk yields before the first entry whose status query raises:
  such an entry ends the walk, and the files found before it are returned. For a folder
  that is a directory, every returned path lies below the folder, is a regular file and
  has one of the four suffixes; and when every directory below the folder is an ordinary
  one that can be listed and the status of every entry can be read, the result is
  exactly the set of those files, at every depth.
\<close>

theorem find_heic_files_exact:
  "fst (find_heic_files folder w) =
     filter (\<lambda>p. is_file (fs w) p = Inr True \<and>
                  suffix p \<in> {''.heic'', ''.heif'', ''.HEIC'', ''.HEIF''})
       (takeWhile (\<lambda>p. \<not> isl (is_file (fs w) p)) (rglob (fs w) folder)) \<and>
   (resolve (fs w) folder = Some (Dir n k cs) \<longrightarrow>
      set (fst (find_heic_files folder w)) \<subseteq>
        {folder @ q | q. q \<noteq> [] \<and> is_file (Dir n k cs) q = Inr True \<and>
                         suffix q \<in> {''.heic'', ''.heif'', ''.HEIC'', ''.HEIF''}} \<and>
      (k \<noteq> Unlistable \<and> walkable_all cs \<longrightarrow>
         set (fst (find_heic_files folder w)) =
           {folder @ q | q. q \<noteq> [] \<and> is_file (Dir n k cs) q = Inr True \<and>
                            suffix q \<in> {''.heic'', ''.heif'', ''.HEIC'', ''.HEIF''}}))"
proof (intro conjI impI)
  let ?S = "{folder @ q | q. q \<noteq> [] \<and> is_file (Dir n k cs) q = Inr True \<and>
                            suffix q \<in> {''.heic'', ''.heif'', ''.HEIC'', ''.HEIF''}}"
  let ?found = "fst (find_heic_files folder w)"
  let ?ok = "\<lambda>p. is_file (fs w) p = Inr True \<and>
                  suffix p \<in> {''.heic'', ''.heif'', ''.HEIC'', ''.HEIF''}"
  show list: "?found = filter ?ok (takeWhile (\<lambda>p. \<not> isl (is_file (fs w) p)) (rglob (fs w) folder))"
    using collect_heic_prefix [of "rglob (fs w) folder" "[]" "emit (EvGlob folder) w"]
    by (simp add: find_heic_files_def Let_def heic_extensions_def)
  {
    assume dir: "resolve (fs w) folder = Some (Dir n k cs)"
    show sub: "set ?found \<subseteq> ?S"
    proof
      fix p assume "p \<in> set ?found"
      with list have p: "p \<in> set (rglob (fs w) folder)" "?ok p"
        by (auto dest: set_takeWhileD)
      from rglob_sound [OF p(1)] obtain q where q: "q \<noteq> []" "p = folder @ q" by blast
      with p dir show "p \<in> ?S"
        by (auto simp: is_file_below suffix_below)
    qed
    assume full: "k \<noteq> Unlistable \<and> walkable_all cs"
    have "?S \<subseteq> set ?found"
    proof
      fix p assume "p \<in> ?S"
      then obtain q where q: "p = folder @ q" "q \<noteq> []" "is_file (Dir n k cs) q = Inr True"
        "suffix q \<in> {''.heic'', ''.heif'', ''.HEIC'', ''.HEIF''}"
        by blast
      from q(3) obtain x where "resolve (Dir n k cs) q = Some x"
        by (auto simp: is_file_def split: option.splits)
      from rglob_complete [OF dir _ _ this q(2)] full q(1)
      have mem: "p \<in> set (rglob (fs w) folder)"
        by simp
      have all: "\<not> isl (is_file (fs w) p')" if "p' \<in> set (rglob (fs w) folder)" for p'
      proof -
        from rglob_sound [OF that] obtain q' where q': "q' \<noteq> []" "p' = folder @ q'" by blast
        from full have "walkable (Dir n Listable cs)" by simp
        from walkable_is_file [OF this, of q'] obtain b
          where "is_file (Dir n Listable cs) q' = Inr b" by blast
        with is_file_kind [OF q'(1), of n k cs] have "is_file (Dir n k cs) q' = Inr b"
          by simp
        with q' dir show ?thesis
          by (simp add: is_file_below)
      qed
      then have "takeWhile (\<lambda>p. \<not> isl (is_file (fs w) p)) (rglob (fs w) folder) = rglob (fs w) folder"
        by (simp add: takeWhile_eq_all_conv)
      with list mem q dir show "p \<in> set ?found"
        by (auto simp: is_file_below suffix_below)
    qed
    with sub show "set ?found = ?S" by blast
  }
qed

text \<open>
  On the first concrete world the walk covers everything, and discovery returns the three
  files with a listed suffix, two of them in a subdirectory. On the second, the walk
  yields nothing below the directory that cannot be listed and below the link, and it
  ends at the entry whose status cannot be read: the two files found before it are
  returned, the image after it is not.
\<close>

theorem find_heic_files_exact_witness:
  "(resolve (fs demo_world) [] = Some (Dir [] Listable demo_entries) \<and>
    walkable_all demo_entries \<and>
    set (fst (find_heic_files [] demo_world)) =
      {[] @ q | q. q \<noteq> [] \<and> is_file (Dir [] Listable demo_entries) q = Inr True \<and>
                   suffix q \<in> {''.heic'', ''.heif'', ''.HEIC'', ''.HEIF''}} \<and>
    fst (find_heic_files [] demo_world) =
      [[''b.heic''], [''sub'', ''c.HEIF''], [''sub'', ''e.heif'']]) \<and>
   (rglob (fs walk_world) [] =
      [[''a.heic''], [''priv''], [''link''], [''sub''],
       [''sub'', ''s.HEIC''], [''sub'', ''u.heic''], [''sub'', ''t.heic'']] \<and>
    is_file (fs walk_world) [''sub'', ''u.heic''] = Inl PermissionError \<and>
    fst (find_heic_files [] walk_world) = [[''a.heic''], [''sub'', ''s.HEIC'']])"
proof (intro conjI)
  show r: "resolve (fs demo_world) [] = Some (Dir [] Listable demo_entries)"
    by (simp add: demo_world_def)
  show wk: "walkable_all demo_entries"
    by code_simp
  show "fst (find_heic_files [] demo_world) =
     [[''b.heic''], [''sub'', ''c.HEIF''], [''sub'', ''e.heif'']]"
    by code_simp
  from find_heic_files_exact [of "[]" demo_world "[]" Listable demo_entries] r wk
  show "set (fst (find_heic_files [] demo_world)) =
     {[] @ q | q. q \<noteq> [] \<and> is_file (Dir [] Listable demo_entries) q = Inr True \<and>
                  suffix q \<in> {''.heic'', ''.heif'', ''.HEIC'', ''.HEIF''}}"
    by blast
next
  show "rglob (fs walk_world) [] =
      [[''a.heic''], [''priv''], [''link''], [''sub''],
       [''sub'', ''s.HEIC''], [''sub'', ''u.heic''], [''sub'', ''t.heic'']]"
    by code_simp
  show "is_file (fs walk_world) [''sub'', ''u.heic''] = Inl PermissionError"
    by code_simp
  have "filter (\<lambda>p. is_file (fs walk_world) p = Inr True \<and>
                  suffix p \<in> {''.heic'', ''.heif'', ''.HEIC'', ''.HEIF''})
       (takeWhile (\<lambda>p. \<not> isl (is_file (fs walk_world) p)) (rglob (fs walk_world) []))
        = [[''a.heic''], [''sub'', ''s.HEIC'']]"
    by code_simp
  with find_heic_files_exact [of "[]" walk_world]
  show "fst (find_heic_files [] walk_world) = [[''a.heic''], [''sub'', ''s.HEIC'']]"
    by simp
qed

text \<open>
  The claim as stated fails on a mixed-case suffix: \<^verbatim>\<open>a.Heic\<close> is a regular file of the
  concrete world, its lowercased suffix is \<^verbatim>\<open>.heic\<close>, and discovery does not return it.
\<close>

theorem mixed_case_suffix_counterexample:
  "is_file (fs demo_world) [''a.Heic''] = Inr True \<and>
   lowercase_match [''a.Heic''] \<and>
   [''a.Heic''] \<notin> set (fst (find_heic_files [] demo_world))"
  by code_simp

end
